theory Spec2Isabelle
  imports Main "HOL-Library.Word"
begin

section \<open>Element types, the heap and outcomes\<close>

text \<open>
  \<open>size_t\<close> is the 64-bit unsigned integer of the LP64 platforms the code is
  built for: \<open>+\<close> and \<open>*\<close> wrap around, \<open>unat\<close> reads the value.
\<close>

type_synonym size_t = "64 word"

text \<open>
  \<open>SimpleVector<Type>\<close> is a template. What it needs of \<open>Type\<close> and of the heap is
  collected in one record:
  \<^item> \<open>Type_default\<close> is the value of \<open>Type()\<close>;
  \<^item> \<open>moved_from x\<close> is the state in which \<open>std::move\<close> leaves an object that held
    \<open>x\<close>, once it has been the source of a move assignment (the identity for \<open>int\<close>;
    the constant \<open>X(0)\<close> for the class \<open>X\<close> of main.cpp, whose move assignment is
    \<open>x_ = exchange(other.x_, 0)\<close>). The destination of a move receives \<open>x\<close> itself;
  \<^item> \<open>heap_has n\<close> says whether the heap can provide a block of \<open>n\<close> elements;
  \<^item> \<open>fresh_slot i\<close> is what slot \<open>i\<close> of a newly allocated block holds
    (\<open>Type()\<close> for a class type, an indeterminate value for a scalar).
\<close>

record 'a env =
  Type_default :: 'a
  moved_from :: "'a \<Rightarrow> 'a"
  heap_has :: "size_t \<Rightarrow> bool"
  fresh_slot :: "nat \<Rightarrow> 'a"

text \<open>
  The exceptions of the code: \<open>std::bad_alloc\<close> from the allocation of a block and
  \<open>std::out_of_range\<close> from \<open>At\<close>.
\<close>

datatype error = AllocationFailure | OutOfRange

text \<open>
  What a call does. \<open>Returns r s\<close>: it returns \<open>r\<close> and leaves the objects it works on
  in state \<open>s\<close>. \<open>Throws e s\<close>: it leaves by the exception \<open>e\<close>, the objects being in
  state \<open>s\<close> at that moment. \<open>AssertionFailed\<close>: an \<open>assert\<close> of the code fails and
  the program is aborted (the code is taken as main.cpp builds it, with its assertions
  compiled in). \<open>Undefined\<close>: the call reads or writes outside an allocated block,
  which has no defined behaviour.
\<close>

datatype ('r, 's) outcome =
  Returns 'r 's
| Throws error 's
| AssertionFailed
| Undefined

text \<open>Sequencing: the rest of a function body runs only after a call that returns.\<close>

fun and_then :: "('r, 's) outcome \<Rightarrow> ('r \<Rightarrow> 's \<Rightarrow> ('q, 's) outcome) \<Rightarrow> ('q, 's) outcome" where
  "and_then (Returns r s) k = k r s"
| "and_then (Throws e s) k = Throws e s"
| "and_then AssertionFailed k = AssertionFailed"
| "and_then Undefined k = Undefined"

section \<open>The owned buffer \<open>ArrayPtr\<close>\<close>

text \<open>
  Modelled from the spec: \<open>array_ptr.h\<close>, which declares \<open>ArrayPtr<Type>\<close>, is not among
  the sources. The spec describes it as the exclusive owner of a fixed-size contiguous
  block that allocates \<open>N\<close> elements (failing with AllocationFailure when memory cannot
  be obtained), gives access to an element by its offset, hands out the pointer to the
  first element, can be moved from and can exchange its block with another \<open>ArrayPtr\<close>.
  A block is the list of the values in its slots; the null pointer is the empty block.
  No block is larger than \<open>PTRDIFF_MAX\<close> bytes, and an element takes at least one byte,
  so a request for more than \<open>max_elements\<close> (that is \<open>2 ^ 63 - 1\<close>) elements always
  fails.
\<close>

type_synonym 'a ArrayPtr = "'a list"

definition max_elements :: size_t where
  "max_elements = 9223372036854775807"

definition ArrayPtr_new :: "'a env \<Rightarrow> size_t \<Rightarrow> 'a ArrayPtr option" where
  "ArrayPtr_new env n =
     (if n \<le> max_elements \<and> heap_has env n
      then Some (map (fresh_slot env) [0..<unat n])
      else None)"

text \<open>
  Modelled from the spec: element access by offset. \<open>ptr[i]\<close> is a read, the target of
  an assignment, or a reference to the slot (the offset of the slot stands for the
  reference). An offset outside the block is \<open>None\<close>: the access is undefined
  behaviour.
\<close>

type_synonym reference = nat

definition ArrayPtr_read :: "'a ArrayPtr \<Rightarrow> nat \<Rightarrow> 'a option" where
  "ArrayPtr_read p i = (if i < length p then Some (p ! i) else None)"

definition ArrayPtr_write :: "'a ArrayPtr \<Rightarrow> nat \<Rightarrow> 'a \<Rightarrow> 'a ArrayPtr option" where
  "ArrayPtr_write p i x = (if i < length p then Some (p[i := x]) else None)"

definition ArrayPtr_ref :: "'a ArrayPtr \<Rightarrow> nat \<Rightarrow> reference option" where
  "ArrayPtr_ref p i = (if i < length p then Some i else None)"

text \<open>
  Modelled from the spec: \<open>a.swap(b)\<close> exchanges the ownership of the two blocks and
  cannot fail. The result is the pair of \<open>a\<close> and \<open>b\<close> afterwards.
\<close>

definition ArrayPtr_swap :: "'a ArrayPtr \<Rightarrow> 'a ArrayPtr \<Rightarrow> 'a ArrayPtr \<times> 'a ArrayPtr" where
  "ArrayPtr_swap a b = (b, a)"

text \<open>
  Modelled from the spec: the buffer can be moved from. After \<open>a = std::move(b)\<close> the
  block of \<open>b\<close> belongs to \<open>a\<close> and \<open>b\<close> holds the null pointer. The result is the
  pair of \<open>a\<close> and \<open>b\<close> afterwards.
\<close>

definition ArrayPtr_move_assign :: "'a ArrayPtr \<Rightarrow> 'a ArrayPtr \<Rightarrow> 'a ArrayPtr \<times> 'a ArrayPtr" where
  "ArrayPtr_move_assign a b = (b, [])"

section \<open>The standard algorithms the code calls\<close>

text \<open>
  An iterator of the code is a pointer into a block; it is written as its offset from
  the first slot of the block. The algorithms of \<open><algorithm>\<close> are loops over such
  offsets. A range whose end lies before its start, or that leaves its block, is
  undefined behaviour (\<open>None\<close>).

  \<open>move_slot env p s d\<close> is the move assignment \<open>p[d] = std::move(p[s])\<close> inside one
  block: the source is left in its moved-from state and the destination holds the
  value (a self-assignment keeps the value).
\<close>

definition move_slot :: "'a env \<Rightarrow> 'a ArrayPtr \<Rightarrow> nat \<Rightarrow> nat \<Rightarrow> 'a ArrayPtr option" where
  "move_slot env p s d =
     (case ArrayPtr_read p s of
        None \<Rightarrow> None
      | Some x \<Rightarrow> ArrayPtr_write (p[s := moved_from env x]) d x)"

text \<open>
  \<open>std::copy(std::make_move_iterator(first), std::make_move_iterator(last), d)\<close> from
  the block \<open>src\<close> into a different block \<open>dst\<close>:
  \<^verbatim>\<open>while (first != last) *d++ = std::move(*first++);\<close>
  The result is the pair of both blocks afterwards.
\<close>

function move_copy ::
  "'a env \<Rightarrow> 'a ArrayPtr \<Rightarrow> nat \<Rightarrow> nat \<Rightarrow> 'a ArrayPtr \<Rightarrow> nat \<Rightarrow> ('a ArrayPtr \<times> 'a ArrayPtr) option" where
  "move_copy env src first lst dst d =
     (if first = lst then Some (src, dst)
      else if lst < first then None
      else (case ArrayPtr_read src first of
              None \<Rightarrow> None
            | Some x \<Rightarrow>
                (case ArrayPtr_write dst d x of
                   None \<Rightarrow> None
                 | Some dst' \<Rightarrow>
                     move_copy env (src[first := moved_from env x]) (first + 1) lst dst' (d + 1))))"
  by pat_completeness auto
termination
  by (relation "measure (\<lambda>(env, src, first, lst, dst, d). lst - first)") auto

text \<open>The same call with source and destination in one block (as in \<open>Erase\<close>).\<close>

function move_copy_within ::
  "'a env \<Rightarrow> 'a ArrayPtr \<Rightarrow> nat \<Rightarrow> nat \<Rightarrow> nat \<Rightarrow> 'a ArrayPtr option" where
  "move_copy_within env p first lst d =
     (if first = lst then Some p
      else if lst < first then None
      else (case move_slot env p first d of
              None \<Rightarrow> None
            | Some p' \<Rightarrow> move_copy_within env p' (first + 1) lst (d + 1)))"
  by pat_completeness auto
termination
  by (relation "measure (\<lambda>(env, p, first, lst, d). lst - first)") auto

text \<open>
  \<open>std::copy_backward(std::make_move_iterator(first), std::make_move_iterator(last), d_last)\<close>
  inside one block:
  \<^verbatim>\<open>while (first != last) *(--d_last) = std::move(*(--last));\<close>
\<close>

function move_copy_backward ::
  "'a env \<Rightarrow> 'a ArrayPtr \<Rightarrow> nat \<Rightarrow> nat \<Rightarrow> nat \<Rightarrow> 'a ArrayPtr option" where
  "move_copy_backward env p first lst d_lst =
     (if first = lst then Some p
      else if lst < first \<or> d_lst = 0 then None
      else (case move_slot env p (lst - 1) (d_lst - 1) of
              None \<Rightarrow> None
            | Some p' \<Rightarrow> move_copy_backward env p' first (lst - 1) (d_lst - 1)))"
  by pat_completeness auto
termination
  by (relation "measure (\<lambda>(env, p, first, lst, d_lst). lst - first)") auto

text \<open>
  \<open>std::copy(first, last, d)\<close> from the block (or initializer list) \<open>src\<close>, which is
  only read, into the block \<open>dst\<close>.
\<close>

function copy_range ::
  "'a list \<Rightarrow> nat \<Rightarrow> nat \<Rightarrow> 'a ArrayPtr \<Rightarrow> nat \<Rightarrow> 'a ArrayPtr option" where
  "copy_range src first lst dst d =
     (if first = lst then Some dst
      else if lst < first then None
      else (case ArrayPtr_read src first of
              None \<Rightarrow> None
            | Some x \<Rightarrow>
                (case ArrayPtr_write dst d x of
                   None \<Rightarrow> None
                 | Some dst' \<Rightarrow> copy_range src (first + 1) lst dst' (d + 1))))"
  by pat_completeness auto
termination
  by (relation "measure (\<lambda>(src, first, lst, dst, d). lst - first)") auto

text \<open>\<open>std::fill(first, last, value)\<close>.\<close>

function fill_range :: "'a ArrayPtr \<Rightarrow> nat \<Rightarrow> nat \<Rightarrow> 'a \<Rightarrow> 'a ArrayPtr option" where
  "fill_range p first lst val =
     (if first = lst then Some p
      else if lst < first then None
      else (case ArrayPtr_write p first val of
              None \<Rightarrow> None
            | Some p' \<Rightarrow> fill_range p' (first + 1) lst val))"
  by pat_completeness auto
termination
  by (relation "measure (\<lambda>(p, first, lst, val). lst - first)") auto

section \<open>The class \<open>SimpleVector\<close>\<close>

record ReserveProxyObj =
  capacity_to_reserve_m :: size_t

text \<open>The free function \<open>Reserve\<close> (the member of the same name is \<open>Reserve\<close> below).\<close>

definition Reserve_obj :: "size_t \<Rightarrow> ReserveProxyObj" where
  "Reserve_obj capacity_to_reserve = \<lparr>capacity_to_reserve_m = capacity_to_reserve\<rparr>"

record 'a SimpleVector =
  items_m :: "'a ArrayPtr"
  size_m :: size_t
  capacity_m :: size_t

text \<open>
  The members \<open>items_\<close>, \<open>size_\<close> and \<open>capacity_\<close> are the fields \<open>items_m\<close>,
  \<open>size_m\<close> and \<open>capacity_m\<close>. An iterator is the offset of its slot from
  \<open>items_.Get()\<close>, and \<open>pos - begin()\<close> is that offset.
\<close>

type_synonym Iterator = nat

definition GetSize :: "'a SimpleVector \<Rightarrow> size_t" where
  "GetSize v = size_m v"

definition GetCapacity :: "'a SimpleVector \<Rightarrow> size_t" where
  "GetCapacity v = capacity_m v"

definition IsEmpty :: "'a SimpleVector \<Rightarrow> bool" where
  "IsEmpty v = (GetSize v = 0)"

definition begin_it :: "'a SimpleVector \<Rightarrow> Iterator" where
  "begin_it v = 0"

definition end_it :: "'a SimpleVector \<Rightarrow> Iterator" where
  "end_it v = 0 + unat (size_m v)"

text \<open>The logical sequence: the elements at the offsets below \<open>size_\<close>.\<close>

definition elements :: "'a SimpleVector \<Rightarrow> 'a list" where
  "elements v = take (unat (size_m v)) (items_m v)"

subsection \<open>Swap, and the members that only change \<open>size_\<close>\<close>

text \<open>
  \<open>swap\<close> is \<open>noexcept\<close> and touches no element; the result is the pair of \<open>*this\<close>
  and \<open>other\<close> afterwards.
\<close>

definition swap :: "'a SimpleVector \<Rightarrow> 'a SimpleVector \<Rightarrow> 'a SimpleVector \<times> 'a SimpleVector" where
  "swap v other =
     (let (a, b) = ArrayPtr_swap (items_m v) (items_m other) in
      (v\<lparr>items_m := a, size_m := size_m other, capacity_m := capacity_m other\<rparr>,
       other\<lparr>items_m := b, size_m := size_m v, capacity_m := capacity_m v\<rparr>))"

definition PopBack :: "'a SimpleVector \<Rightarrow> 'a SimpleVector" where
  "PopBack v = (if \<not> IsEmpty v then v\<lparr>size_m := size_m v - 1\<rparr> else v)"

definition Clear :: "'a SimpleVector \<Rightarrow> 'a SimpleVector" where
  "Clear v = v\<lparr>size_m := 0\<rparr>"

subsection \<open>Element access\<close>

text \<open>
  \<open>operator[]\<close> and \<open>At\<close>, each in its mutable and its read-only overload. They return
  the reference and leave the vector as it is.
\<close>

definition subscript :: "'a SimpleVector \<Rightarrow> size_t \<Rightarrow> (reference, 'a SimpleVector) outcome" where
  "subscript v index =
     (if index < size_m v
      then (case ArrayPtr_ref (items_m v) (unat index) of
              None \<Rightarrow> Undefined
            | Some r \<Rightarrow> Returns r v)
      else AssertionFailed)"

definition subscript_const :: "'a SimpleVector \<Rightarrow> size_t \<Rightarrow> (reference, 'a SimpleVector) outcome" where
  "subscript_const v index =
     (if index < size_m v
      then (case ArrayPtr_ref (items_m v) (unat index) of
              None \<Rightarrow> Undefined
            | Some r \<Rightarrow> Returns r v)
      else AssertionFailed)"

definition At :: "'a SimpleVector \<Rightarrow> size_t \<Rightarrow> (reference, 'a SimpleVector) outcome" where
  "At v index =
     (if index \<ge> size_m v then Throws OutOfRange v
      else (case ArrayPtr_ref (items_m v) (unat index) of
              None \<Rightarrow> Undefined
            | Some r \<Rightarrow> Returns r v))"

definition At_const :: "'a SimpleVector \<Rightarrow> size_t \<Rightarrow> (reference, 'a SimpleVector) outcome" where
  "At_const v index =
     (if index \<ge> size_m v then Throws OutOfRange v
      else (case ArrayPtr_ref (items_m v) (unat index) of
              None \<Rightarrow> Undefined
            | Some r \<Rightarrow> Returns r v))"

text \<open>Reading and assigning through a reference into the block of \<open>v\<close>.\<close>

definition load :: "'a SimpleVector \<Rightarrow> reference \<Rightarrow> 'a" where
  "load v r = items_m v ! r"


subsection \<open>Growth: \<open>Reserve\<close> and \<open>Resize\<close>\<close>

text \<open>
  The loop of \<open>Resize\<close>,
  \<^verbatim>\<open>for (size_t i = size_; i < new_size; ++i) { items_[i] = std::move(Type()); }\<close>
  Every round moves from a temporary of its own, so every slot receives \<open>Type()\<close>.
  The counter stays below \<open>new_size\<close>, so it does not wrap and is a \<open>nat\<close>.
\<close>

function fill_default :: "'a env \<Rightarrow> 'a ArrayPtr \<Rightarrow> nat \<Rightarrow> nat \<Rightarrow> 'a ArrayPtr option" where
  "fill_default env p i new_size =
     (if i < new_size
      then (case ArrayPtr_write p i (Type_default env) of
              None \<Rightarrow> None
            | Some p' \<Rightarrow> fill_default env p' (i + 1) new_size)
      else Some p)"
  by pat_completeness auto
termination
  by (relation "measure (\<lambda>(env, p, i, new_size). new_size - i)") auto

definition Reserve :: "'a env \<Rightarrow> 'a SimpleVector \<Rightarrow> size_t \<Rightarrow> (unit, 'a SimpleVector) outcome" where
  "Reserve env v new_capacity =
     (if new_capacity > capacity_m v then
        (case ArrayPtr_new env new_capacity of
           None \<Rightarrow> Throws AllocationFailure v
         | Some temp \<Rightarrow>
             (case move_copy env (items_m v) (begin_it v) (end_it v) temp 0 of
                None \<Rightarrow> Undefined
              | Some (old, temp') \<Rightarrow>
                  (let (a, b) = ArrayPtr_swap old temp' in
                   Returns () (v\<lparr>items_m := a, capacity_m := new_capacity\<rparr>))))
      else Returns () v)"

definition Resize :: "'a env \<Rightarrow> 'a SimpleVector \<Rightarrow> size_t \<Rightarrow> (unit, 'a SimpleVector) outcome" where
  "Resize env v new_size =
     (if new_size \<le> capacity_m v then
        (if new_size \<le> size_m v then Returns () (v\<lparr>size_m := new_size\<rparr>)
         else (case fill_default env (items_m v) (unat (size_m v)) (unat new_size) of
                 None \<Rightarrow> Undefined
               | Some p \<Rightarrow> Returns () (v\<lparr>items_m := p, size_m := new_size\<rparr>)))
      else
        (let v1 = v\<lparr>capacity_m := max new_size (capacity_m v * 2)\<rparr> in
         case ArrayPtr_new env (capacity_m v1) of
           None \<Rightarrow> Throws AllocationFailure v1
         | Some temp \<Rightarrow>
             (case move_copy env (items_m v1) (begin_it v1) (end_it v1) temp 0 of
                None \<Rightarrow> Undefined
              | Some (old, temp1) \<Rightarrow>
                  (case fill_default env temp1 (unat (size_m v1)) (unat new_size) of
                     None \<Rightarrow> Undefined
                   | Some temp2 \<Rightarrow>
                       (let (a, b) = ArrayPtr_swap old temp2 in
                        Returns () (v1\<lparr>items_m := a, size_m := new_size\<rparr>))))))"

subsection \<open>Constructors\<close>

text \<open>
  A constructor returns the new vector; the state of its outcome is the argument it
  was given by reference, as the call leaves it (\<open>()\<close> when there is none).

  The loop of the constructor \<open>SimpleVector(size_t size, Type&& value)\<close>,
  \<^verbatim>\<open>for (size_t i = 0; i < size_; ++i) { items_[i] = std::move(value); }\<close>
  moves from the one object \<open>value\<close> in every round.
\<close>

function fill_moved ::
  "'a env \<Rightarrow> 'a ArrayPtr \<Rightarrow> nat \<Rightarrow> nat \<Rightarrow> 'a \<Rightarrow> ('a ArrayPtr \<times> 'a) option" where
  "fill_moved env p i n val =
     (if i < n
      then (case ArrayPtr_write p i val of
              None \<Rightarrow> None
            | Some p' \<Rightarrow> fill_moved env p' (i + 1) n (moved_from env val))
      else Some (p, val))"
  by pat_completeness auto
termination
  by (relation "measure (\<lambda>(env, p, i, n, val). n - i)") auto

definition SimpleVector_default :: "'a SimpleVector" where
  "SimpleVector_default = \<lparr>items_m = [], size_m = 0, capacity_m = 0\<rparr>"

definition SimpleVector_fill_move :: "'a env \<Rightarrow> size_t \<Rightarrow> 'a \<Rightarrow> ('a SimpleVector, 'a) outcome" where
  "SimpleVector_fill_move env sz val =
     (case ArrayPtr_new env sz of
        None \<Rightarrow> Throws AllocationFailure val
      | Some p \<Rightarrow>
          (case fill_moved env p 0 (unat sz) val of
             None \<Rightarrow> Undefined
           | Some (p', val') \<Rightarrow> Returns \<lparr>items_m = p', size_m = sz, capacity_m = sz\<rparr> val'))"

text \<open>
  \<open>explicit SimpleVector(size_t size) : SimpleVector(size, std::move(Type()))\<close>: the
  argument is an rvalue, so the delegation selects the \<open>Type&&\<close> overload; the
  temporary is gone afterwards.
\<close>

definition SimpleVector_sized :: "'a env \<Rightarrow> size_t \<Rightarrow> ('a SimpleVector, unit) outcome" where
  "SimpleVector_sized env sz =
     (case SimpleVector_fill_move env sz (Type_default env) of
        Returns v tmp \<Rightarrow> Returns v ()
      | Throws e tmp \<Rightarrow> Throws e ()
      | AssertionFailed \<Rightarrow> AssertionFailed
      | Undefined \<Rightarrow> Undefined)"

definition SimpleVector_fill :: "'a env \<Rightarrow> size_t \<Rightarrow> 'a \<Rightarrow> ('a SimpleVector, unit) outcome" where
  "SimpleVector_fill env sz val =
     (case ArrayPtr_new env sz of
        None \<Rightarrow> Throws AllocationFailure ()
      | Some p \<Rightarrow>
          (let v = \<lparr>items_m = p, size_m = sz, capacity_m = sz\<rparr> in
           case fill_range (items_m v) (begin_it v) (end_it v) val of
             None \<Rightarrow> Undefined
           | Some p' \<Rightarrow> Returns (v\<lparr>items_m := p'\<rparr>) ()))"

definition SimpleVector_reserved :: "'a env \<Rightarrow> ReserveProxyObj \<Rightarrow> ('a SimpleVector, unit) outcome" where
  "SimpleVector_reserved env obj =
     (case Reserve env SimpleVector_default (capacity_to_reserve_m obj) of
        Returns u v \<Rightarrow> Returns v ()
      | Throws e v \<Rightarrow> Throws e ()
      | AssertionFailed \<Rightarrow> AssertionFailed
      | Undefined \<Rightarrow> Undefined)"

definition SimpleVector_init :: "'a env \<Rightarrow> 'a list \<Rightarrow> ('a SimpleVector, unit) outcome" where
  "SimpleVector_init env init =
     (case ArrayPtr_new env (of_nat (length init)) of
        None \<Rightarrow> Throws AllocationFailure ()
      | Some p \<Rightarrow>
          (let v = \<lparr>items_m = p, size_m = of_nat (length init), capacity_m = of_nat (length init)\<rparr> in
           case copy_range init 0 (length init) (items_m v) (begin_it v) of
             None \<Rightarrow> Undefined
           | Some p' \<Rightarrow> Returns (v\<lparr>items_m := p'\<rparr>) ()))"

definition SimpleVector_copy :: "'a env \<Rightarrow> 'a SimpleVector \<Rightarrow> ('a SimpleVector, 'a SimpleVector) outcome" where
  "SimpleVector_copy env other =
     (case ArrayPtr_new env (capacity_m other) of
        None \<Rightarrow> Throws AllocationFailure other
      | Some p \<Rightarrow>
          (let v = \<lparr>items_m = p, size_m = size_m other, capacity_m = capacity_m other\<rparr> in
           case copy_range (items_m other) (begin_it other) (end_it other) (items_m v) (begin_it v) of
             None \<Rightarrow> Undefined
           | Some p' \<Rightarrow> Returns (v\<lparr>items_m := p'\<rparr>) other))"

definition SimpleVector_move :: "'a SimpleVector \<Rightarrow> ('a SimpleVector, 'a SimpleVector) outcome" where
  "SimpleVector_move other =
     (let v0 = SimpleVector_default;
          (a, b) = ArrayPtr_move_assign (items_m v0) (items_m other);
          v1 = v0\<lparr>items_m := a\<rparr>;
          other1 = other\<lparr>items_m := b\<rparr>;
          v2 = v1\<lparr>size_m := size_m other1\<rparr>;
          v3 = v2\<lparr>capacity_m := size_m v2\<rparr>;
          other2 = other1\<lparr>size_m := 0\<rparr>;
          other3 = other2\<lparr>capacity_m := 0\<rparr>
      in Returns v3 other3)"

subsection \<open>Assignment\<close>

text \<open>
  The state of an assignment is the pair of \<open>*this\<close> and \<open>rhs\<close>. The flag \<open>same\<close> is
  the test \<open>this == &rhs\<close>: both names stand for one object.
\<close>

definition copy_assign ::
  "'a env \<Rightarrow> bool \<Rightarrow> 'a SimpleVector \<Rightarrow> 'a SimpleVector \<Rightarrow> (unit, 'a SimpleVector \<times> 'a SimpleVector) outcome" where
  "copy_assign env same v rhs =
     (if \<not> same then
        (case SimpleVector_copy env rhs of
           Returns temp rhs' \<Rightarrow> (let (v', temp') = swap v temp in Returns () (v', rhs'))
         | Throws e rhs' \<Rightarrow> Throws e (v, rhs')
         | AssertionFailed \<Rightarrow> AssertionFailed
         | Undefined \<Rightarrow> Undefined)
      else Returns () (v, rhs))"

definition move_assign ::
  "bool \<Rightarrow> 'a SimpleVector \<Rightarrow> 'a SimpleVector \<Rightarrow> (unit, 'a SimpleVector \<times> 'a SimpleVector) outcome" where
  "move_assign same v rhs =
     (if \<not> same then
        (let (a, b) = ArrayPtr_move_assign (items_m v) (items_m rhs);
             v1 = v\<lparr>items_m := a, size_m := size_m rhs, capacity_m := capacity_m rhs\<rparr>;
             rhs1 = rhs\<lparr>items_m := b, size_m := size_m v, capacity_m := capacity_m v\<rparr>;
             rhs2 = rhs1\<lparr>size_m := 0, capacity_m := 0\<rparr>
         in Returns () (v1, rhs2))
      else Returns () (v, rhs))"

subsection \<open>\<open>PushBack\<close>, \<open>Insert\<close> and \<open>Erase\<close>\<close>

text \<open>
  The element argument of \<open>PushBack\<close> and \<open>Insert\<close> is a reference, \<open>const Type&\<close> or
  \<open>Type&&\<close>, and the code reads it only after it has changed the storage. It
  designates either an object of the caller's outside the vector's block, holding
  \<open>x\<close> (\<open>Outside x\<close>), or the slot \<open>k\<close> of the block the vector holds when the call is
  made (\<open>Slot k\<close>), as in \<open>v.PushBack(v[0])\<close> or \<open>v.Insert(v.begin(), std::move(v[2]))\<close>.
\<close>

datatype 'a arg = Outside 'a | Slot nat

text \<open>
  The copy assignment \<open>p[i] = item\<close>, by where a \<open>Slot\<close> lies: in the block \<open>p\<close> that
  is assigned to (\<open>assign_here\<close>), in another block \<open>old\<close> that is still allocated
  (\<open>assign_across\<close>), or in a block that has been released, where the read is
  undefined behaviour (\<open>assign_released\<close>).
\<close>

fun assign_here :: "'a ArrayPtr \<Rightarrow> nat \<Rightarrow> 'a arg \<Rightarrow> 'a ArrayPtr option" where
  "assign_here p i (Outside x) = ArrayPtr_write p i x"
| "assign_here p i (Slot k) =
     (case ArrayPtr_read p k of None \<Rightarrow> None | Some x \<Rightarrow> ArrayPtr_write p i x)"

fun assign_across :: "'a ArrayPtr \<Rightarrow> 'a ArrayPtr \<Rightarrow> nat \<Rightarrow> 'a arg \<Rightarrow> 'a ArrayPtr option" where
  "assign_across old p i (Outside x) = ArrayPtr_write p i x"
| "assign_across old p i (Slot k) =
     (case ArrayPtr_read old k of None \<Rightarrow> None | Some x \<Rightarrow> ArrayPtr_write p i x)"

fun assign_released :: "'a ArrayPtr \<Rightarrow> nat \<Rightarrow> 'a arg \<Rightarrow> 'a ArrayPtr option" where
  "assign_released p i (Outside x) = ArrayPtr_write p i x"
| "assign_released p i (Slot k) = None"

text \<open>
  The move assignment \<open>p[i] = std::move(item)\<close> in the same three situations. A slot
  that is moved from is left in its moved-from state; \<open>move_across\<close> returns the
  other block and \<open>p\<close> afterwards. \<open>moved_arg\<close> is the caller's reference after the
  call: an outside object has been moved from, a slot is found in the blocks.
\<close>

fun move_here :: "'a env \<Rightarrow> 'a ArrayPtr \<Rightarrow> nat \<Rightarrow> 'a arg \<Rightarrow> 'a ArrayPtr option" where
  "move_here env p i (Outside x) = ArrayPtr_write p i x"
| "move_here env p i (Slot k) = move_slot env p k i"

fun move_across ::
  "'a env \<Rightarrow> 'a ArrayPtr \<Rightarrow> 'a ArrayPtr \<Rightarrow> nat \<Rightarrow> 'a arg \<Rightarrow> ('a ArrayPtr \<times> 'a ArrayPtr) option" where
  "move_across env old p i (Outside x) =
     (case ArrayPtr_write p i x of None \<Rightarrow> None | Some q \<Rightarrow> Some (old, q))"
| "move_across env old p i (Slot k) =
     (case ArrayPtr_read old k of
        None \<Rightarrow> None
      | Some x \<Rightarrow>
          (case ArrayPtr_write p i x of
             None \<Rightarrow> None
           | Some q \<Rightarrow> Some (old[k := moved_from env x], q)))"

fun moved_arg :: "'a env \<Rightarrow> 'a arg \<Rightarrow> 'a arg" where
  "moved_arg env (Outside x) = Outside (moved_from env x)"
| "moved_arg env (Slot k) = Slot k"

text \<open>
  \<open>Resize\<close> takes its \<open>else\<close> branch when \<open>new_size\<close> exceeds the capacity. There
  \<open>items_.swap(temp)\<close> hands the block the vector held to \<open>temp\<close>, and the block is
  released where the branch ends: a reference into it dangles from then on.
\<close>

definition Resize_reallocates :: "'a SimpleVector \<Rightarrow> size_t \<Rightarrow> bool" where
  "Resize_reallocates v new_size \<longleftrightarrow> \<not> new_size \<le> capacity_m v"

text \<open>
  \<open>PushBack(const Type& item)\<close> and \<open>PushBack(Type&& item)\<close>. The assignment
  \<open>items_[index] = item\<close> comes last: after a \<open>Resize\<close> that reallocated, a slot of
  the former block is read after its release. The second overload returns, in place
  of \<open>void\<close>, the caller's reference as the call leaves it.
\<close>

definition PushBack :: "'a env \<Rightarrow> 'a SimpleVector \<Rightarrow> 'a arg \<Rightarrow> (unit, 'a SimpleVector) outcome" where
  "PushBack env v item =
     (let index = size_m v in
      and_then
        (if size_m v = capacity_m v then Resize env v (capacity_m v + 1)
         else Returns () (v\<lparr>size_m := size_m v + 1\<rparr>))
        (\<lambda>u v1. case (if size_m v = capacity_m v \<and> Resize_reallocates v (capacity_m v + 1)
                       then assign_released (items_m v1) (unat index) item
                       else assign_here (items_m v1) (unat index) item) of
                   None \<Rightarrow> Undefined
                 | Some p \<Rightarrow> Returns () (v1\<lparr>items_m := p\<rparr>)))"

definition PushBack_move :: "'a env \<Rightarrow> 'a SimpleVector \<Rightarrow> 'a arg \<Rightarrow> ('a arg, 'a SimpleVector) outcome" where
  "PushBack_move env v item =
     (let index = size_m v in
      and_then
        (if size_m v = capacity_m v then Resize env v (capacity_m v + 1)
         else Returns () (v\<lparr>size_m := size_m v + 1\<rparr>))
        (\<lambda>u v1. case (if size_m v = capacity_m v \<and> Resize_reallocates v (capacity_m v + 1)
                       then assign_released (items_m v1) (unat index) item
                       else move_here env (items_m v1) (unat index) item) of
                   None \<Rightarrow> Undefined
                 | Some p \<Rightarrow> Returns (moved_arg env item) (v1\<lparr>items_m := p\<rparr>)))"

text \<open>
  \<open>Insert(ConstIterator pos, const Type& value)\<close>. The \<open>assert\<close> is
  \<open>pos >= begin() && pos <= end()\<close>; \<open>index\<close> is \<open>pos - begin()\<close>. With room left,
  \<open>items_[index] = value\<close> reads \<open>value\<close> after the elements have been shifted. When
  the vector is full, the new contents are built in \<open>temp\<close>, a vector made by the
  sized constructor; \<open>temp[index] = value\<close> goes through \<open>operator[]\<close> of \<open>temp\<close> and
  reads \<open>value\<close> after the elements before \<open>index\<close> have been moved out of the block
  of \<open>*this\<close>, which is released only after the \<open>swap\<close>.
\<close>

definition Insert ::
  "'a env \<Rightarrow> 'a SimpleVector \<Rightarrow> Iterator \<Rightarrow> 'a arg \<Rightarrow> (Iterator, 'a SimpleVector) outcome" where
  "Insert env v pos val =
     (if \<not> (pos \<ge> begin_it v \<and> pos \<le> end_it v) then AssertionFailed
      else
        (let index = pos - begin_it v in
         if size_m v < capacity_m v then
           (case move_copy_backward env (items_m v) (begin_it v + index) (end_it v) (end_it v + 1) of
              None \<Rightarrow> Undefined
            | Some p \<Rightarrow>
                (case assign_here p index val of
                   None \<Rightarrow> Undefined
                 | Some p' \<Rightarrow>
                     (let v' = v\<lparr>items_m := p', size_m := size_m v + 1\<rparr> in
                      Returns (begin_it v' + index) v')))
         else
           (case SimpleVector_sized env (max (capacity_m v * 2) 1) of
              Throws e u \<Rightarrow> Throws e v
            | AssertionFailed \<Rightarrow> AssertionFailed
            | Undefined \<Rightarrow> Undefined
            | Returns temp0 u \<Rightarrow>
                (let temp = temp0\<lparr>size_m := size_m v + 1\<rparr> in
                 case move_copy env (items_m v) (begin_it v) (begin_it v + index) (items_m temp) (begin_it temp) of
                   None \<Rightarrow> Undefined
                 | Some (old1, t1) \<Rightarrow>
                     and_then (subscript (temp\<lparr>items_m := t1\<rparr>) (of_nat index))
                       (\<lambda>r temp1.
                          case assign_across old1 (items_m temp1) r val of
                            None \<Rightarrow> Undefined
                          | Some q \<Rightarrow>
                              (let temp2 = temp1\<lparr>items_m := q\<rparr> in
                               case move_copy env old1 (begin_it v + index) (end_it v)
                                      (items_m temp2) (begin_it temp2 + index + 1) of
                                 None \<Rightarrow> Undefined
                               | Some (old2, t2) \<Rightarrow>
                                   (let (v', temp') = swap (v\<lparr>items_m := old2\<rparr>) (temp2\<lparr>items_m := t2\<rparr>) in
                                    Returns (begin_it v' + index) v')))))))"

text \<open>
  \<open>Insert(ConstIterator pos, Type&& value)\<close> differs in the two assignments
  \<open>= std::move(value)\<close>, which leave a slot they read in its moved-from state; it
  returns the iterator together with the caller's reference as the call leaves it.
\<close>

definition Insert_move ::
  "'a env \<Rightarrow> 'a SimpleVector \<Rightarrow> Iterator \<Rightarrow> 'a arg \<Rightarrow> (Iterator \<times> 'a arg, 'a SimpleVector) outcome" where
  "Insert_move env v pos val =
     (if \<not> (pos \<ge> begin_it v \<and> pos \<le> end_it v) then AssertionFailed
      else
        (let index = pos - begin_it v in
         if size_m v < capacity_m v then
           (case move_copy_backward env (items_m v) (begin_it v + index) (end_it v) (end_it v + 1) of
              None \<Rightarrow> Undefined
            | Some p \<Rightarrow>
                (case move_here env p index val of
                   None \<Rightarrow> Undefined
                 | Some p' \<Rightarrow>
                     (let v' = v\<lparr>items_m := p', size_m := size_m v + 1\<rparr> in
                      Returns (begin_it v' + index, moved_arg env val) v')))
         else
           (case SimpleVector_sized env (max (capacity_m v * 2) 1) of
              Throws e u \<Rightarrow> Throws e v
            | AssertionFailed \<Rightarrow> AssertionFailed
            | Undefined \<Rightarrow> Undefined
            | Returns temp0 u \<Rightarrow>
                (let temp = temp0\<lparr>size_m := size_m v + 1\<rparr> in
                 case move_copy env (items_m v) (begin_it v) (begin_it v + index) (items_m temp) (begin_it temp) of
                   None \<Rightarrow> Undefined
                 | Some (old1, t1) \<Rightarrow>
                     and_then (subscript (temp\<lparr>items_m := t1\<rparr>) (of_nat index))
                       (\<lambda>r temp1.
                          case move_across env old1 (items_m temp1) r val of
                            None \<Rightarrow> Undefined
                          | Some (old1', q) \<Rightarrow>
                              (let temp2 = temp1\<lparr>items_m := q\<rparr> in
                               case move_copy env old1' (begin_it v + index) (end_it v)
                                      (items_m temp2) (begin_it temp2 + index + 1) of
                                 None \<Rightarrow> Undefined
                               | Some (old2, t2) \<Rightarrow>
                                   (let (v', temp') = swap (v\<lparr>items_m := old2\<rparr>) (temp2\<lparr>items_m := t2\<rparr>) in
                                    Returns (begin_it v' + index, moved_arg env val) v')))))))"

text \<open>\<open>Erase(ConstIterator pos)\<close>; the \<open>assert\<close> is \<open>pos >= begin() && pos < end()\<close>.\<close>

definition Erase :: "'a env \<Rightarrow> 'a SimpleVector \<Rightarrow> Iterator \<Rightarrow> (Iterator, 'a SimpleVector) outcome" where
  "Erase env v pos =
     (if \<not> (pos \<ge> begin_it v \<and> pos < end_it v) then AssertionFailed
      else
        (let index = pos - begin_it v in
         case move_copy_within env (items_m v) (begin_it v + index + 1) (end_it v) (begin_it v + index) of
           None \<Rightarrow> Undefined
         | Some p \<Rightarrow>
             (let v' = v\<lparr>items_m := p, size_m := size_m v - 1\<rparr> in
              Returns (begin_it v' + index) v')))"

subsection \<open>The representation invariant\<close>

text \<open>
  A vector is valid when its size does not exceed its capacity, its block has at least
  \<open>capacity_\<close> slots, and the capacity is that of a block the heap can provide.
\<close>

definition valid :: "'a SimpleVector \<Rightarrow> bool" where
  "valid v \<longleftrightarrow>
     size_m v \<le> capacity_m v \<and> unat (capacity_m v) \<le> length (items_m v) \<and>
     capacity_m v \<le> max_elements"

subsection \<open>A sequence of calls of \<open>PushBack\<close>\<close>


subsection \<open>One operation that completes\<close>

text \<open>
  \<open>returns_from env vs vs'\<close>: one constructor, assignment or member function of
  \<open>SimpleVector\<close> is applied to the vectors \<open>vs\<close> it works on (\<open>*this\<close> first, then an
  argument of the class's type; none for a constructor without one), returns, and
  leaves the vectors \<open>vs'\<close> (a constructor's new vector first). The members that only
  read (\<open>GetSize\<close>, \<open>GetCapacity\<close>, \<open>IsEmpty\<close>, \<open>begin\<close>, \<open>end\<close>, \<open>cbegin\<close>, \<open>cend\<close>)
  are the rule \<open>r_observe\<close>.
\<close>

inductive returns_from ::
  "'a env \<Rightarrow> 'a SimpleVector list \<Rightarrow> 'a SimpleVector list \<Rightarrow> bool" for env :: "'a env" where
  r_default: "returns_from env [] [SimpleVector_default]"
| r_sized: "SimpleVector_sized env n = Returns v () \<Longrightarrow> returns_from env [] [v]"
| r_fill: "SimpleVector_fill env n x = Returns v () \<Longrightarrow> returns_from env [] [v]"
| r_fill_move: "SimpleVector_fill_move env n x = Returns v x' \<Longrightarrow> returns_from env [] [v]"
| r_reserved: "SimpleVector_reserved env obj = Returns v () \<Longrightarrow> returns_from env [] [v]"
| r_init: "SimpleVector_init env init = Returns v () \<Longrightarrow> returns_from env [] [v]"
| r_copy: "SimpleVector_copy env other = Returns v other' \<Longrightarrow> returns_from env [other] [v, other']"
| r_move: "SimpleVector_move other = Returns v other' \<Longrightarrow> returns_from env [other] [v, other']"
| r_copy_assign:
    "copy_assign env False v rhs = Returns () (v', rhs') \<Longrightarrow> returns_from env [v, rhs] [v', rhs']"
| r_copy_assign_self:
    "copy_assign env True v v = Returns () (v', rhs') \<Longrightarrow> returns_from env [v] [v']"
| r_move_assign:
    "move_assign False v rhs = Returns () (v', rhs') \<Longrightarrow> returns_from env [v, rhs] [v', rhs']"
| r_move_assign_self:
    "move_assign True v v = Returns () (v', rhs') \<Longrightarrow> returns_from env [v] [v']"
| r_Reserve: "Reserve env v n = Returns () v' \<Longrightarrow> returns_from env [v] [v']"
| r_PushBack: "PushBack env v x = Returns () v' \<Longrightarrow> returns_from env [v] [v']"
| r_PushBack_move: "PushBack_move env v x = Returns x' v' \<Longrightarrow> returns_from env [v] [v']"
| r_Insert: "Insert env v pos x = Returns it v' \<Longrightarrow> returns_from env [v] [v']"
| r_Insert_move: "Insert_move env v pos x = Returns itx v' \<Longrightarrow> returns_from env [v] [v']"
| r_PopBack: "returns_from env [v] [PopBack v]"
| r_Erase: "Erase env v pos = Returns it v' \<Longrightarrow> returns_from env [v] [v']"
| r_swap: "swap v other = (v', other') \<Longrightarrow> returns_from env [v, other] [v', other']"
| r_subscript: "subscript v i = Returns r v' \<Longrightarrow> returns_from env [v] [v']"
| r_subscript_const: "subscript_const v i = Returns r v' \<Longrightarrow> returns_from env [v] [v']"
| r_At: "At v i = Returns r v' \<Longrightarrow> returns_from env [v] [v']"
| r_At_const: "At_const v i = Returns r v' \<Longrightarrow> returns_from env [v] [v']"
| r_Clear: "returns_from env [v] [Clear v]"
| r_observe: "returns_from env [v] [v]"
| r_Resize: "Resize env v n = Returns () v' \<Longrightarrow> returns_from env [v] [v']"

code_pred returns_from .

subsection \<open>Two element types\<close>

text \<open>
  \<open>int\<close>: \<open>int()\<close> is 0 and a move is a copy. The flag says whether the heap provides
  the blocks that are asked for; a new block happens to hold zeros.
\<close>

definition int_env :: "bool \<Rightarrow> int env" where
  "int_env ok = \<lparr>Type_default = 0, moved_from = (\<lambda>x. x), heap_has = (\<lambda>n. ok), fresh_slot = (\<lambda>i. 0)\<rparr>"

text \<open>
  The class \<open>X\<close> of main.cpp, an object being the value of its member \<open>x_\<close>: \<open>X()\<close> is
  \<open>X(5)\<close>, and the move assignment \<open>x_ = exchange(other.x_, 0)\<close> leaves 0 in the source.
\<close>

definition X_env :: "nat env" where
  "X_env = \<lparr>Type_default = 5, moved_from = (\<lambda>x. 0), heap_has = (\<lambda>n. True), fresh_slot = (\<lambda>i. 5)\<rparr>"

section \<open>Properties\<close>

text \<open>
  The defining equations of the loops are recursive and unconditional; they are
  unfolded by hand.
\<close>

declare fill_default.simps [simp del] move_copy.simps [simp del] fill_moved.simps [simp del]
  move_copy_within.simps [simp del] move_copy_backward.simps [simp del] copy_range.simps [simp del]
  fill_range.simps [simp del]

subsection \<open>The loops\<close>

lemma fill_default_skip: "n \<le> i \<Longrightarrow> fill_default env p i n = Some p"
  by (subst fill_default.simps) simp

lemma fill_default_spec:
  "i \<le> n \<Longrightarrow> n \<le> length p \<Longrightarrow>
   \<exists>p'. fill_default env p i n = Some p' \<and> length p' = length p \<and>
        (\<forall>j < length p. p' ! j = (if i \<le> j \<and> j < n then Type_default env else p ! j))"
proof (induction env p i n rule: fill_default.induct)
  case (1 env p i n)
  show ?case
  proof (cases "i < n")
    case True
    then have w: "ArrayPtr_write p i (Type_default env) = Some (p[i := Type_default env])"
      using 1 by (simp add: ArrayPtr_write_def)
    from 1(1) [OF True w] True 1(3)
    obtain p' where p': "fill_default env (p[i := Type_default env]) (i + 1) n = Some p'"
       "length p' = length p"
       "\<forall>j < length p. p' ! j = (if i + 1 \<le> j \<and> j < n then Type_default env else (p[i := Type_default env]) ! j)"
      by auto
    have "fill_default env p i n = Some p'"
      by (subst fill_default.simps) (use True w p' in simp)
    moreover have "\<forall>j < length p. p' ! j = (if i \<le> j \<and> j < n then Type_default env else p ! j)"
      using p'(3) True by (auto simp: nth_list_update)
    ultimately show ?thesis using p'(2) by blast
  next
    case False
    then show ?thesis using 1 by (auto simp: fill_default_skip)
  qed
qed

lemma move_copy_empty: "move_copy env src first first dst d = Some (src, dst)"
  by (subst move_copy.simps) simp

lemma move_copy_spec:
  "first \<le> lst \<Longrightarrow> lst \<le> length src \<Longrightarrow> d + (lst - first) \<le> length dst \<Longrightarrow>
   \<exists>src' dst'. move_copy env src first lst dst d = Some (src', dst') \<and>
      length src' = length src \<and> length dst' = length dst \<and>
      (\<forall>j < length src. src' ! j =
          (if first \<le> j \<and> j < lst then moved_from env (src ! j) else src ! j)) \<and>
      (\<forall>j < length dst. dst' ! j =
          (if d \<le> j \<and> j < d + (lst - first) then src ! (first + (j - d)) else dst ! j))"
proof (induction env src first lst dst d rule: move_copy.induct)
  case (1 env src first lst dst d)
  note ih = 1(1) and le = 1(2) and ls = 1(3) and ld = 1(4)
  show ?case
  proof (cases "first = lst")
    case True
    then show ?thesis by (auto simp: move_copy_empty)
  next
    case False
    with le have lt: "first < lst" "\<not> lst < first" by simp_all
    let ?x = "src ! first"
    let ?src1 = "src[first := moved_from env ?x]"
    let ?dst1 = "dst[d := ?x]"
    have rd: "ArrayPtr_read src first = Some ?x"
      using lt ls by (simp add: ArrayPtr_read_def)
    have wr: "ArrayPtr_write dst d ?x = Some ?dst1"
      using lt ld by (simp add: ArrayPtr_write_def)
    have p1: "first + 1 \<le> lst" using lt by simp
    have p2: "lst \<le> length ?src1" using ls by simp
    have p3: "d + 1 + (lst - (first + 1)) \<le> length ?dst1" using lt ld by simp
    from ih [OF False lt(2) rd wr p1 p2 p3]
    obtain src' dst' where r:
      "move_copy env ?src1 (first + 1) lst ?dst1 (d + 1) = Some (src', dst')"
      "length src' = length ?src1" "length dst' = length ?dst1"
      "\<forall>j < length ?src1. src' ! j =
          (if first + 1 \<le> j \<and> j < lst then moved_from env (?src1 ! j) else ?src1 ! j)"
      "\<forall>j < length ?dst1. dst' ! j =
          (if d + 1 \<le> j \<and> j < d + 1 + (lst - (first + 1))
           then ?src1 ! (first + 1 + (j - (d + 1))) else ?dst1 ! j)"
      by blast
    have "move_copy env src first lst dst d = Some (src', dst')"
      by (subst move_copy.simps) (use False lt rd wr r(1) in simp)
    moreover have "\<forall>j < length src. src' ! j =
          (if first \<le> j \<and> j < lst then moved_from env (src ! j) else src ! j)"
    proof (intro allI impI)
      fix j assume j: "j < length src"
      with r(4) have e: "src' ! j =
          (if first + 1 \<le> j \<and> j < lst then moved_from env (?src1 ! j) else ?src1 ! j)"
        by simp
      show "src' ! j = (if first \<le> j \<and> j < lst then moved_from env (src ! j) else src ! j)"
      proof (cases "j = first")
        case True
        with e j lt show ?thesis by simp
      next
        case False
        then have "(first + 1 \<le> j) = (first \<le> j)" by arith
        with e False show ?thesis by (simp add: nth_list_update)
      qed
    qed
    moreover have "\<forall>j < length dst. dst' ! j =
       (if d \<le> j \<and> j < d + (lst - first) then src ! (first + (j - d)) else dst ! j)"
    proof (intro allI impI)
      fix j assume j: "j < length dst"
      show "dst' ! j = (if d \<le> j \<and> j < d + (lst - first) then src ! (first + (j - d)) else dst ! j)"
      proof (cases "j = d")
        case True
        from r(5) j have "dst' ! j = ?dst1 ! j" using True by simp
        moreover have "d < d + (lst - first)" using lt by arith
        ultimately show ?thesis using True j lt by auto
      next
        case False
        have idx: "d < j \<Longrightarrow> first + 1 + (j - (d + 1)) = first + (j - d)" by arith
        have ne: "d < j \<Longrightarrow> first + (j - d) \<noteq> first" by arith
        have c: "(d + 1 \<le> j \<and> j < d + 1 + (lst - (first + 1))) = (d \<le> j \<and> j < d + (lst - first))"
          using False lt by arith
        from r(5) j have "dst' ! j =
          (if d + 1 \<le> j \<and> j < d + 1 + (lst - (first + 1))
           then ?src1 ! (first + 1 + (j - (d + 1))) else ?dst1 ! j)"
          by simp
        then show ?thesis
          unfolding c using False idx ne by (auto simp: nth_list_update)
      qed
    qed
    ultimately show ?thesis using r(2,3) by simp
  qed
qed

lemma move_copy_bounds:
  "move_copy env src first lst dst d = Some r \<Longrightarrow> first \<noteq> lst \<Longrightarrow>
     first < lst \<and> lst \<le> length src \<and> d + (lst - first) \<le> length dst"
proof (induction env src first lst dst d arbitrary: r rule: move_copy.induct)
  case (1 env src first lst dst d)
  from 1(2,3) have lt: "\<not> lst < first"
    by (subst (asm) move_copy.simps) (auto split: if_splits)
  from 1(2,3) lt obtain x dst' where rd: "ArrayPtr_read src first = Some x"
     and wr: "ArrayPtr_write dst d x = Some dst'"
     and rc: "move_copy env (src[first := moved_from env x]) (first + 1) lst dst' (d + 1) = Some r"
    by (subst (asm) move_copy.simps) (auto split: option.splits if_splits)
  from rd wr have b: "first < length src" "d < length dst" "length dst' = length dst"
    by (auto simp: ArrayPtr_read_def ArrayPtr_write_def split: if_splits)
  show ?case
  proof (cases "first + 1 = lst")
    case True
    with b show ?thesis by auto
  next
    case False
    from 1(1) [OF 1(3) lt rd wr rc False] b 1(3) lt show ?thesis by auto
  qed
qed






lemma fill_moved_spec:
  "i \<le> n \<Longrightarrow> n \<le> length p \<Longrightarrow>
   \<exists>p' val'. fill_moved env p i n val = Some (p', val') \<and> length p' = length p \<and>
      (\<forall>j < length p. p' ! j = (if i \<le> j \<and> j < n then (moved_from env ^^ (j - i)) val else p ! j))"
proof (induction env p i n val rule: fill_moved.induct)
  case (1 env p i n val)
  show ?case
  proof (cases "i < n")
    case False
    then have "fill_moved env p i n val = Some (p, val)"
      by (subst fill_moved.simps) simp
    with False show ?thesis by auto
  next
    case True
    then have w: "ArrayPtr_write p i val = Some (p[i := val])"
      using 1(3) by (simp add: ArrayPtr_write_def)
    have q1: "i + 1 \<le> n" and q2: "n \<le> length (p[i := val])" using True 1(3) by simp_all
    from 1(1) [OF True w q1 q2]
    obtain p' val' where r:
      "fill_moved env (p[i := val]) (i + 1) n (moved_from env val) = Some (p', val')"
      "length p' = length (p[i := val])"
      "\<forall>j < length (p[i := val]). p' ! j =
         (if i + 1 \<le> j \<and> j < n then (moved_from env ^^ (j - (i + 1))) (moved_from env val)
          else (p[i := val]) ! j)"
      by blast
    have "fill_moved env p i n val = Some (p', val')"
      by (subst fill_moved.simps) (use True w r(1) in simp)
    moreover have "\<forall>j < length p. p' ! j =
        (if i \<le> j \<and> j < n then (moved_from env ^^ (j - i)) val else p ! j)"
    proof (intro allI impI)
      fix j assume j: "j < length p"
      with r(3) have e: "p' ! j =
         (if i + 1 \<le> j \<and> j < n then (moved_from env ^^ (j - (i + 1))) (moved_from env val)
          else (p[i := val]) ! j)"
        by simp
      show "p' ! j = (if i \<le> j \<and> j < n then (moved_from env ^^ (j - i)) val else p ! j)"
      proof (cases "i < j")
        case True
        then have "j - i = Suc (j - (i + 1))" by arith
        with e True show ?thesis by (simp add: funpow_swap1)
      next
        case False
        with e j \<open>i < n\<close> show ?thesis by (auto simp: nth_list_update)
      qed
    qed
    ultimately show ?thesis using r(2) by simp
  qed
qed

lemma fill_moved_length:
  "fill_moved env p i n val = Some (p', val') \<Longrightarrow> length p' = length p"
proof (induction env p i n val rule: fill_moved.induct)
  case (1 env p i n val)
  show ?case
  proof (cases "i < n")
    case True
    with 1(2) obtain q where q: "ArrayPtr_write p i val = Some q"
      and r: "fill_moved env q (i + 1) n (moved_from env val) = Some (p', val')"
      by (subst (asm) fill_moved.simps) (auto split: option.splits)
    from q have "length q = length p" by (auto simp: ArrayPtr_write_def split: if_splits)
    with 1(1) [OF True q r] show ?thesis by simp
  next
    case False
    with 1(2) show ?thesis by (subst (asm) fill_moved.simps) simp
  qed
qed

lemma move_copy_length:
  "move_copy env src first lst dst d = Some (src', dst') \<Longrightarrow>
     length src' = length src \<and> length dst' = length dst"
proof (induction env src first lst dst d rule: move_copy.induct)
  case (1 env src first lst dst d)
  show ?case
  proof (cases "first = lst")
    case True
    with 1(2) show ?thesis by (simp add: move_copy_empty)
  next
    case False
    from False 1(2) have lt: "\<not> lst < first"
      by (subst (asm) move_copy.simps) (auto split: if_splits)
    from False 1(2) lt obtain x q where rd: "ArrayPtr_read src first = Some x"
      and wr: "ArrayPtr_write dst d x = Some q"
      and rc: "move_copy env (src[first := moved_from env x]) (first + 1) lst q (d + 1) = Some (src', dst')"
      by (subst (asm) move_copy.simps) (auto split: option.splits if_splits)
    from wr have "length q = length dst" by (auto simp: ArrayPtr_write_def split: if_splits)
    with 1(1) [OF False lt rd wr rc] show ?thesis by simp
  qed
qed

subsection \<open>Arithmetic on \<open>size_t\<close>\<close>


lemma unat_max: "unat (max (a::size_t) b) = max (unat a) (unat b)"
  by (simp add: max_def word_le_nat_alt)

lemma unat_max_elements: "unat max_elements = 9223372036854775807"
  by (simp add: max_elements_def)

lemma unat_double: "(c::size_t) \<le> max_elements \<Longrightarrow> unat (c * 2) = unat c * 2"
proof -
  assume "c \<le> max_elements"
  then have "unat c \<le> 9223372036854775807"
    by (simp add: word_le_nat_alt unat_max_elements)
  then have "unat c * unat (2::size_t) < 2 ^ LENGTH(64)" by simp
  then show ?thesis using unat_mult_lem [of c 2] by simp
qed

lemma unat_inc_max: "(c::size_t) \<le> max_elements \<Longrightarrow> unat (c + 1) = unat c + 1"
proof -
  assume "c \<le> max_elements"
  then have "unat c \<le> 9223372036854775807"
    by (simp add: word_le_nat_alt unat_max_elements)
  then have "unat c + unat (1::size_t) < 2 ^ LENGTH(64)" by simp
  then show ?thesis using unat_add_lem [of c 1] by simp
qed




lemma unat_inc_le: "unat ((a::size_t) + 1) \<le> unat a + 1"
  by (simp add: unat_word_ariths)

lemma word_dec_le: "(a::size_t) \<noteq> 0 \<Longrightarrow> a - 1 \<le> a"
  by (simp add: word_le_nat_alt unat_minus_one)

subsection \<open>Lists\<close>






subsection \<open>Swap\<close>

text \<open>
  Claim C10. \<open>a.swap(b)\<close> exchanges the complete states of the two vectors: afterwards
  \<open>a\<close> is what \<open>b\<close> was and \<open>b\<close> is what \<open>a\<close> was, so the logical sequences, the sizes
  and the capacities are exchanged; a second swap restores both. \<open>swap\<close> does not
  depend on the heap: it allocates nothing and always returns.
\<close>

theorem swap_exchanges_states:
  "swap a b = (b, a)
   \<and> elements (fst (swap a b)) = elements b \<and> elements (snd (swap a b)) = elements a
   \<and> GetSize (fst (swap a b)) = GetSize b \<and> GetSize (snd (swap a b)) = GetSize a
   \<and> GetCapacity (fst (swap a b)) = GetCapacity b \<and> GetCapacity (snd (swap a b)) = GetCapacity a
   \<and> (case swap a b of (a', b') \<Rightarrow> swap a' b') = (a, b)"
proof -
  have "swap a b = (b, a)" and "swap b a = (a, b)"
    by (simp_all add: swap_def ArrayPtr_swap_def)
  then show ?thesis by simp
qed

subsection \<open>Checked access\<close>

text \<open>
  Claim C8. \<open>At(index)\<close> throws \<open>OutOfRange\<close> exactly when \<open>index >= size\<close>, and the
  vector is then unchanged; when \<open>index < size\<close> it does what \<open>operator[]\<close> does, and a
  reference it returns designates the slot \<open>index\<close> of the unchanged vector. Both hold
  for the mutable and for the read-only overload.
\<close>

theorem At_checked_access:
  "(size_m v \<le> index \<longrightarrow>
      At v index = Throws OutOfRange v \<and> At_const v index = Throws OutOfRange v)
   \<and> (index < size_m v \<longrightarrow>
      At v index = subscript v index \<and> At_const v index = subscript_const v index
      \<and> (\<forall>e s. At v index \<noteq> Throws e s) \<and> (\<forall>e s. At_const v index \<noteq> Throws e s)
      \<and> (\<forall>r s. At v index = Returns r s \<or> At_const v index = Returns r s \<longrightarrow>
             s = v \<and> r = unat index))"
  by (auto simp: At_def At_const_def subscript_def subscript_const_def ArrayPtr_ref_def
        split: option.splits)

theorem At_checked_access_witness:
  "At \<lparr>items_m = [1, 2, 3::int], size_m = 3, capacity_m = 3\<rparr> 3
     = Throws OutOfRange \<lparr>items_m = [1, 2, 3], size_m = 3, capacity_m = 3\<rparr>
   \<and> At \<lparr>items_m = [1, 2, 3::int], size_m = 3, capacity_m = 3\<rparr> 2
        = subscript \<lparr>items_m = [1, 2, 3], size_m = 3, capacity_m = 3\<rparr> 2
   \<and> At \<lparr>items_m = [1, 2, 3::int], size_m = 3, capacity_m = 3\<rparr> 2
        = Returns 2 \<lparr>items_m = [1, 2, 3], size_m = 3, capacity_m = 3\<rparr>
   \<and> load \<lparr>items_m = [1, 2, 3::int], size_m = 3, capacity_m = 3\<rparr> 2 = 3"
proof -
  let ?v = "\<lparr>items_m = [1, 2, 3::int], size_m = 3, capacity_m = 3\<rparr>"
  have hi: "size_m ?v \<le> 3" and lo: "(2::size_t) < size_m ?v"
    by simp_all
  have r: "At ?v 2 = Returns 2 ?v"
    by (simp add: At_def ArrayPtr_ref_def)
  from At_checked_access [of ?v 3] At_checked_access [of ?v 2] hi lo r
  show ?thesis by (simp add: load_def)
qed

subsection \<open>Construction from a reservation hint\<close>

lemma Reserve_default:
  "Reserve env SimpleVector_default c =
     (if c = 0 then Returns () SimpleVector_default
      else case ArrayPtr_new env c of
             None \<Rightarrow> Throws AllocationFailure SimpleVector_default
           | Some temp \<Rightarrow> Returns () \<lparr>items_m = temp, size_m = 0, capacity_m = c\<rparr>)"
  by (simp add: Reserve_def SimpleVector_default_def begin_it_def end_it_def ArrayPtr_swap_def
        move_copy_empty word_gt_0 split: option.splits)

text \<open>
  Claim C6. \<open>SimpleVector(Reserve(c))\<close>, when it returns, yields a vector of size 0 and
  capacity \<open>c\<close> with an empty logical sequence. It returns when \<open>c\<close> is 0 or the heap
  provides a block of \<open>c\<close> elements, and throws \<open>AllocationFailure\<close> otherwise.
\<close>

theorem reserved_constructor:
  "(\<forall>v. SimpleVector_reserved env (Reserve_obj c) = Returns v () \<longrightarrow>
        GetSize v = 0 \<and> GetCapacity v = c \<and> elements v = [])
   \<and> (c = 0 \<or> (c \<le> max_elements \<and> heap_has env c) \<longrightarrow>
        (\<exists>v. SimpleVector_reserved env (Reserve_obj c) = Returns v ()))
   \<and> (c \<noteq> 0 \<and> \<not> (c \<le> max_elements \<and> heap_has env c) \<longrightarrow>
        SimpleVector_reserved env (Reserve_obj c) = Throws AllocationFailure ())"
  unfolding SimpleVector_reserved_def Reserve_obj_def ReserveProxyObj.simps Reserve_default
  by (auto simp: GetSize_def GetCapacity_def elements_def SimpleVector_default_def ArrayPtr_new_def)

theorem reserved_constructor_witness:
  "SimpleVector_reserved (int_env True) (Reserve_obj 5)
     = Returns \<lparr>items_m = [0, 0, 0, 0, 0], size_m = 0, capacity_m = 5\<rparr> ()
   \<and> GetSize \<lparr>items_m = [0, 0, 0, 0, 0::int], size_m = 0, capacity_m = 5\<rparr> = 0
   \<and> GetCapacity \<lparr>items_m = [0, 0, 0, 0, 0::int], size_m = 0, capacity_m = 5\<rparr> = 5
   \<and> elements \<lparr>items_m = [0, 0, 0, 0, 0::int], size_m = 0, capacity_m = 5\<rparr> = []"
proof -
  have r: "SimpleVector_reserved (int_env True) (Reserve_obj 5)
      = Returns \<lparr>items_m = [0, 0, 0, 0, 0], size_m = 0, capacity_m = 5\<rparr> ()"
    by (simp add: SimpleVector_reserved_def Reserve_obj_def Reserve_default int_env_def
          ArrayPtr_new_def max_elements_def upt_rec)
  from reserved_constructor [of "int_env True" 5] r show ?thesis by simp
qed

subsection \<open>\<open>Resize\<close>\<close>

lemma ArrayPtr_new_length: "ArrayPtr_new env n = Some p \<Longrightarrow> length p = unat n \<and> n \<le> max_elements"
  by (auto simp: ArrayPtr_new_def split: if_splits)

lemma Resize_spec:
  assumes v: "valid v"
    and alloc: "capacity_m v < n \<longrightarrow> ArrayPtr_new env (max n (capacity_m v * 2)) \<noteq> None"
  shows "\<exists>v'. Resize env v n = Returns () v' \<and> valid v' \<and> size_m v' = n \<and>
      capacity_m v' = (if capacity_m v < n then max n (capacity_m v * 2) else capacity_m v) \<and>
      (\<forall>i. i < unat (size_m v) \<and> i < unat n \<longrightarrow> items_m v' ! i = items_m v ! i) \<and>
      (\<forall>i. unat (size_m v) \<le> i \<and> i < unat n \<longrightarrow> items_m v' ! i = Type_default env)"
proof -
  from v have sc: "size_m v \<le> capacity_m v" and cl: "unat (capacity_m v) \<le> length (items_m v)"
    and cm: "capacity_m v \<le> max_elements"
    by (simp_all add: valid_def)
  from sc have scn: "unat (size_m v) \<le> unat (capacity_m v)" by (simp add: word_le_nat_alt)
  consider (shrink) "n \<le> capacity_m v" "n \<le> size_m v"
    | (inplace) "n \<le> capacity_m v" "size_m v < n"
    | (grow) "capacity_m v < n"
    by (meson not_le)
  then show ?thesis
  proof cases
    case shrink
    then have "Resize env v n = Returns () (v\<lparr>size_m := n\<rparr>)"
      by (simp add: Resize_def)
    moreover have "valid (v\<lparr>size_m := n\<rparr>)"
      using v shrink by (simp add: valid_def)
    moreover have "\<not> capacity_m v < n" "unat n \<le> unat (size_m v)"
      using shrink by (simp_all add: word_le_nat_alt word_less_nat_alt)
    ultimately show ?thesis by auto
  next
    case inplace
    then have b: "unat (size_m v) \<le> unat n" "unat n \<le> length (items_m v)"
      using cl by (simp_all add: word_le_nat_alt word_less_nat_alt)
    from fill_default_spec [OF b, of env]
    obtain p' where p': "fill_default env (items_m v) (unat (size_m v)) (unat n) = Some p'"
      "length p' = length (items_m v)"
      "\<forall>j < length (items_m v). p' ! j =
          (if unat (size_m v) \<le> j \<and> j < unat n then Type_default env else items_m v ! j)"
      by blast
    have "Resize env v n = Returns () (v\<lparr>items_m := p', size_m := n\<rparr>)"
      using inplace p'(1) by (simp add: Resize_def)
    moreover have "valid (v\<lparr>items_m := p', size_m := n\<rparr>)"
      using v inplace p'(2) by (simp add: valid_def)
    ultimately show ?thesis using inplace p'(3) b scn cl
      by auto
  next
    case grow
    let ?c = "max n (capacity_m v * 2)"
    from alloc grow obtain temp where t: "ArrayPtr_new env ?c = Some temp" by auto
    then have tl: "length temp = unat ?c" and tm: "?c \<le> max_elements"
      using ArrayPtr_new_length by blast+
    have nc: "unat n \<le> unat ?c" by (simp add: unat_max)
    have sn: "unat (size_m v) < unat n"
      using grow scn by (simp add: word_less_nat_alt)
    have m1: "0 \<le> unat (size_m v)" "unat (size_m v) \<le> length (items_m v)"
      "0 + (unat (size_m v) - 0) \<le> length temp"
      using scn cl sn nc tl by simp_all
    from move_copy_spec [OF m1, of env]
    obtain old t1 where mc: "move_copy env (items_m v) 0 (unat (size_m v)) temp 0 = Some (old, t1)"
      "length t1 = length temp"
      "\<forall>j < length temp. t1 ! j = (if j < unat (size_m v) then items_m v ! j else temp ! j)"
      by auto
    have f1: "unat (size_m v) \<le> unat n" "unat n \<le> length t1"
      using sn nc tl mc(2) by simp_all
    from fill_default_spec [OF f1, of env]
    obtain t2 where fd: "fill_default env t1 (unat (size_m v)) (unat n) = Some t2"
      "length t2 = length t1"
      "\<forall>j < length t1. t2 ! j =
          (if unat (size_m v) \<le> j \<and> j < unat n then Type_default env else t1 ! j)"
      by blast
    let ?v' = "v\<lparr>capacity_m := ?c, items_m := t2, size_m := n\<rparr>"
    have ng: "\<not> n \<le> capacity_m v" using grow by (simp add: not_le)
    have "Resize env v n = Returns () ?v'"
      using ng t mc(1) fd(1)
      by (simp add: Resize_def Let_def begin_it_def end_it_def ArrayPtr_swap_def)
    moreover have "valid ?v'"
      using tm tl fd(2) mc(2) by (simp add: valid_def max_def)
    moreover have "\<forall>i. i < unat (size_m v) \<and> i < unat n \<longrightarrow> items_m ?v' ! i = items_m v ! i"
      using fd(3) mc(2,3) f1 tl by auto
    moreover have "\<forall>i. unat (size_m v) \<le> i \<and> i < unat n \<longrightarrow> items_m ?v' ! i = Type_default env"
      using fd(3) f1 by auto
    ultimately show ?thesis using grow by auto
  qed
qed

text \<open>
  Claim C3. For a valid vector, \<open>Resize(n)\<close> returns whenever the heap provides the
  block it asks for (it asks for one only when \<open>n\<close> exceeds the capacity). Afterwards
  the size is \<open>n\<close> and the capacity is at least \<open>n\<close>; the elements at the offsets below
  \<open>min(oldSize, n)\<close> are unchanged; the elements at the offsets from \<open>oldSize\<close> up to
  \<open>n\<close> are \<open>Type()\<close>; when \<open>n\<close> exceeds the old capacity the new capacity is
  \<open>max(n, oldCapacity * 2)\<close>, the doubling being exact (no wrap-around), and otherwise
  the capacity is unchanged.
\<close>

theorem Resize_postcondition:
  assumes "valid v"
    and "GetCapacity v < n \<longrightarrow> ArrayPtr_new env (max n (GetCapacity v * 2)) \<noteq> None"
  shows "\<exists>v'. Resize env v n = Returns () v' \<and>
      GetSize v' = n \<and> n \<le> GetCapacity v' \<and>
      (\<forall>i < min (unat (GetSize v)) (unat n). elements v' ! i = elements v ! i) \<and>
      (\<forall>i. unat (GetSize v) \<le> i \<and> i < unat n \<longrightarrow> elements v' ! i = Type_default env) \<and>
      (GetCapacity v < n \<longrightarrow>
         GetCapacity v' = max n (GetCapacity v * 2) \<and>
         unat (GetCapacity v') = max (unat n) (2 * unat (GetCapacity v))) \<and>
      (n \<le> GetCapacity v \<longrightarrow> GetCapacity v' = GetCapacity v)"
proof -
  from assms(2) have a: "capacity_m v < n \<longrightarrow> ArrayPtr_new env (max n (capacity_m v * 2)) \<noteq> None"
    by (simp add: GetCapacity_def)
  from Resize_spec [OF assms(1) a]
  obtain v' where r: "Resize env v n = Returns () v'" "valid v'" "size_m v' = n"
    "capacity_m v' = (if capacity_m v < n then max n (capacity_m v * 2) else capacity_m v)"
    "\<forall>i. i < unat (size_m v) \<and> i < unat n \<longrightarrow> items_m v' ! i = items_m v ! i"
    "\<forall>i. unat (size_m v) \<le> i \<and> i < unat n \<longrightarrow> items_m v' ! i = Type_default env"
    by blast
  have cm: "capacity_m v \<le> max_elements" using assms(1) by (simp add: valid_def)
  have "n \<le> capacity_m v'" using r(2,3) by (simp add: valid_def)
  moreover have "\<forall>i < min (unat (size_m v)) (unat n). elements v' ! i = elements v ! i"
    using r(3,5) by (simp add: elements_def)
  moreover have "\<forall>i. unat (size_m v) \<le> i \<and> i < unat n \<longrightarrow> elements v' ! i = Type_default env"
    using r(3,6) by (simp add: elements_def)
  moreover have "capacity_m v < n \<longrightarrow> unat (capacity_m v') = max (unat n) (2 * unat (capacity_m v))"
    using r(4) cm by (simp add: unat_max unat_double mult.commute)
  moreover have "n \<le> capacity_m v \<longrightarrow> capacity_m v' = capacity_m v"
    using r(4) by (auto simp: not_less [symmetric])
  ultimately show ?thesis using r(1,3,4) by (auto simp: GetSize_def GetCapacity_def)
qed

theorem Resize_postcondition_witness:
  "valid \<lparr>items_m = [1, 2, 3::int], size_m = 3, capacity_m = 3\<rparr>
   \<and> Resize (int_env True) \<lparr>items_m = [1, 2, 3], size_m = 3, capacity_m = 3\<rparr> 7
       = Returns () \<lparr>items_m = [1, 2, 3, 0, 0, 0, 0], size_m = 7, capacity_m = 7\<rparr>
   \<and> (\<exists>v'. Resize (int_env True) \<lparr>items_m = [1, 2, 3], size_m = 3, capacity_m = 3\<rparr> 7 = Returns () v'
       \<and> GetSize v' = 7 \<and> 7 \<le> GetCapacity v' \<and> elements v' ! 2 = 3 \<and> elements v' ! 3 = 0
       \<and> GetCapacity v' = max 7 (3 * 2))"
proof -
  let ?v = "\<lparr>items_m = [1, 2, 3::int], size_m = 3, capacity_m = 3\<rparr>"
  have v: "valid ?v"
    by (simp add: valid_def max_elements_def)
  have a: "GetCapacity ?v < 7 \<longrightarrow> ArrayPtr_new (int_env True) (max 7 (GetCapacity ?v * 2)) \<noteq> None"
    by (simp add: GetCapacity_def ArrayPtr_new_def int_env_def max_elements_def)
  have r: "Resize (int_env True) ?v 7
       = Returns () \<lparr>items_m = [1, 2, 3, 0, 0, 0, 0], size_m = 7, capacity_m = 7\<rparr>"
    by (simp add: Resize_def Let_def ArrayPtr_new_def int_env_def max_elements_def upt_rec
          begin_it_def end_it_def move_copy.simps fill_default.simps ArrayPtr_read_def
          ArrayPtr_write_def ArrayPtr_swap_def)
  from Resize_postcondition [OF v a] v r show ?thesis
    by (simp add: GetSize_def GetCapacity_def elements_def)
qed

subsection \<open>\<open>PushBack\<close>\<close>



lemma PushBack_slot_full:
  assumes "valid v" and "size_m v = capacity_m v"
  shows "PushBack env v (Slot k) \<noteq> Returns u v'" and "PushBack_move env v (Slot k) \<noteq> Returns a v'"
proof -
  have cm: "capacity_m v \<le> max_elements" using assms(1) by (simp add: valid_def)
  have "unat (capacity_m v + 1) = unat (capacity_m v) + 1" using cm by (rule unat_inc_max)
  then have "capacity_m v < capacity_m v + 1" by (simp add: word_less_nat_alt)
  then have re: "Resize_reallocates v (capacity_m v + 1)" by (simp add: Resize_reallocates_def not_le)
  show "PushBack env v (Slot k) \<noteq> Returns u v'"
    using assms(2) re
    by (cases "Resize env v (capacity_m v + 1)") (simp_all add: PushBack_def Let_def)
  show "PushBack_move env v (Slot k) \<noteq> Returns a v'"
    using assms(2) re
    by (cases "Resize env v (capacity_m v + 1)") (simp_all add: PushBack_move_def Let_def)
qed







subsection \<open>\<open>Insert\<close> and \<open>Erase\<close>\<close>

lemma SimpleVector_sized_Returns:
  "ArrayPtr_new env n \<noteq> None \<Longrightarrow>
   \<exists>p. SimpleVector_sized env n = Returns \<lparr>items_m = p, size_m = n, capacity_m = n\<rparr> () \<and>
       length p = unat n \<and> n \<le> max_elements \<and>
       (\<forall>j < unat n. p ! j = (moved_from env ^^ j) (Type_default env))"
proof -
  assume "ArrayPtr_new env n \<noteq> None"
  then obtain t where t: "ArrayPtr_new env n = Some t" by auto
  then have tl: "length t = unat n" "n \<le> max_elements"
    using ArrayPtr_new_length by blast+
  have "0 \<le> unat n" "unat n \<le> length t" using tl by simp_all
  from fill_moved_spec [OF this, of env "Type_default env"]
  obtain p val' where f: "fill_moved env t 0 (unat n) (Type_default env) = Some (p, val')"
    "length p = length t"
    "\<forall>j < length t. p ! j = (if 0 \<le> j \<and> j < unat n then (moved_from env ^^ (j - 0)) (Type_default env) else t ! j)"
    by blast
  have "SimpleVector_sized env n = Returns \<lparr>items_m = p, size_m = n, capacity_m = n\<rparr> ()"
    using t f(1) by (simp add: SimpleVector_sized_def SimpleVector_fill_move_def)
  then show ?thesis using f(2,3) tl by auto
qed





lemma Insert_int_full:
  "Insert (int_env True) \<lparr>items_m = [1, 2, 3], size_m = 3, capacity_m = 3\<rparr> 1 (Outside 9)
     = Returns 1 \<lparr>items_m = [1, 9, 2, 3, 0, 0], size_m = 4, capacity_m = 6\<rparr>"
  by (simp add: Insert_def SimpleVector_sized_def SimpleVector_fill_move_def Let_def ArrayPtr_new_def
        int_env_def max_elements_def upt_rec begin_it_def end_it_def move_copy.simps fill_moved.simps
        ArrayPtr_read_def ArrayPtr_write_def ArrayPtr_swap_def subscript_def ArrayPtr_ref_def
        swap_def)







subsection \<open>The size never exceeds the capacity\<close>

lemma SimpleVector_fill_move_shape:
  "SimpleVector_fill_move env n x = Returns v x' \<Longrightarrow>
     size_m v = n \<and> capacity_m v = n \<and> length (items_m v) = unat n"
  by (auto simp: SimpleVector_fill_move_def dest!: fill_moved_length ArrayPtr_new_length
        split: option.splits)

lemma SimpleVector_sized_shape:
  "SimpleVector_sized env n = Returns v () \<Longrightarrow>
     size_m v = n \<and> capacity_m v = n \<and> length (items_m v) = unat n"
  by (auto simp: SimpleVector_sized_def dest: SimpleVector_fill_move_shape split: outcome.splits)

lemma Resize_keeps_order:
  "Resize env v n = Returns () v' \<Longrightarrow> size_m v' \<le> capacity_m v'"
  by (auto simp: Resize_def Let_def ArrayPtr_swap_def split: if_splits option.splits)

lemma Reserve_keeps_order:
  "size_m v \<le> capacity_m v \<Longrightarrow> Reserve env v n = Returns () v' \<Longrightarrow> size_m v' \<le> capacity_m v'"
  by (auto simp: Reserve_def Let_def ArrayPtr_swap_def split: if_splits option.splits)

lemma PushBack_keeps_order:
  "size_m v \<le> capacity_m v \<Longrightarrow> PushBack env v x = Returns () v' \<Longrightarrow> size_m v' \<le> capacity_m v'"
proof -
  assume sc: "size_m v \<le> capacity_m v" and r: "PushBack env v x = Returns () v'"
  show ?thesis
  proof (cases "size_m v = capacity_m v")
    case True
    with r obtain v1 where "Resize env v (capacity_m v + 1) = Returns () v1"
      and "size_m v' = size_m v1" "capacity_m v' = capacity_m v1"
      by (cases "Resize env v (capacity_m v + 1)")
         (auto simp: PushBack_def Let_def split: option.splits if_splits)
    then show ?thesis using Resize_keeps_order by metis
  next
    case False
    with sc have "size_m v < capacity_m v" by simp
    then have "size_m v + 1 \<le> capacity_m v" by (rule inc_le)
    with r False show ?thesis
      by (auto simp: PushBack_def Let_def split: option.splits)
  qed
qed

lemma PushBack_move_keeps_order:
  "size_m v \<le> capacity_m v \<Longrightarrow> PushBack_move env v x = Returns x' v' \<Longrightarrow>
     size_m v' \<le> capacity_m v'"
proof -
  assume sc: "size_m v \<le> capacity_m v" and r: "PushBack_move env v x = Returns x' v'"
  show ?thesis
  proof (cases "size_m v = capacity_m v")
    case True
    with r obtain v1 where "Resize env v (capacity_m v + 1) = Returns () v1"
      and "size_m v' = size_m v1" "capacity_m v' = capacity_m v1"
      by (cases "Resize env v (capacity_m v + 1)")
         (auto simp: PushBack_move_def Let_def split: option.splits if_splits)
    then show ?thesis using Resize_keeps_order by metis
  next
    case False
    with sc have "size_m v < capacity_m v" by simp
    then have "size_m v + 1 \<le> capacity_m v" by (rule inc_le)
    with r False show ?thesis
      by (auto simp: PushBack_move_def Let_def split: option.splits)
  qed
qed

lemma Erase_keeps_order:
  "size_m v \<le> capacity_m v \<Longrightarrow> Erase env v pos = Returns it v' \<Longrightarrow> size_m v' \<le> capacity_m v'"
proof -
  assume sc: "size_m v \<le> capacity_m v" and r: "Erase env v pos = Returns it v'"
  from r have "pos < unat (size_m v)" and s: "size_m v' = size_m v - 1" "capacity_m v' = capacity_m v"
    by (auto simp: Erase_def Let_def begin_it_def end_it_def split: if_splits option.splits)
  then have "size_m v \<noteq> 0" by (auto simp: unat_gt_0 [symmetric])
  then have "size_m v - 1 \<le> size_m v" by (rule word_dec_le)
  with sc s show ?thesis by simp
qed

lemma PopBack_keeps_order:
  "size_m v \<le> capacity_m v \<Longrightarrow> size_m (PopBack v) \<le> capacity_m (PopBack v)"
  using word_dec_le [of "size_m v"]
  by (auto simp: PopBack_def IsEmpty_def GetSize_def)

lemma assign_across_length:
  "assign_across old p i val = Some q \<Longrightarrow> length q = length p \<and> i < length p"
  by (cases val) (auto simp: ArrayPtr_read_def ArrayPtr_write_def split: if_splits)

lemma move_across_length:
  "move_across env old p i val = Some (old', q) \<Longrightarrow> length q = length p \<and> i < length p"
  by (cases val) (auto simp: ArrayPtr_read_def ArrayPtr_write_def split: if_splits)

lemma Insert_full_pieces:
  assumes "\<not> size_m v < capacity_m v" and "Insert env v pos x = Returns it v'"
  shows "\<exists>temp0 old1 t1 q old2 t2.
      SimpleVector_sized env (max (capacity_m v * 2) 1) = Returns temp0 () \<and>
      move_copy env (items_m v) 0 pos (items_m temp0) 0 = Some (old1, t1) \<and>
      assign_across old1 t1 (unat (of_nat pos :: size_t)) x = Some q \<and>
      move_copy env old1 pos (unat (size_m v)) q (pos + 1) = Some (old2, t2) \<and>
      size_m v' = size_m v + 1 \<and> capacity_m v' = capacity_m temp0 \<and>
      pos \<le> unat (size_m v)"
  using assms
  by (auto simp: Insert_def Let_def begin_it_def end_it_def subscript_def ArrayPtr_ref_def
        swap_def ArrayPtr_swap_def
        split: if_splits option.splits outcome.splits prod.splits)

lemma Insert_move_full_pieces:
  assumes "\<not> size_m v < capacity_m v" and "Insert_move env v pos x = Returns itx v'"
  shows "\<exists>temp0 old1 t1 old1' q old2 t2.
      SimpleVector_sized env (max (capacity_m v * 2) 1) = Returns temp0 () \<and>
      move_copy env (items_m v) 0 pos (items_m temp0) 0 = Some (old1, t1) \<and>
      move_across env old1 t1 (unat (of_nat pos :: size_t)) x = Some (old1', q) \<and>
      move_copy env old1' pos (unat (size_m v)) q (pos + 1) = Some (old2, t2) \<and>
      size_m v' = size_m v + 1 \<and> capacity_m v' = capacity_m temp0 \<and>
      pos \<le> unat (size_m v)"
  using assms
  by (auto simp: Insert_move_def Let_def begin_it_def end_it_def subscript_def ArrayPtr_ref_def
        swap_def ArrayPtr_swap_def
        split: if_splits option.splits outcome.splits prod.splits)

lemma Insert_full_room:
  assumes t0: "SimpleVector_sized env T = Returns temp0 ()"
    and c1: "move_copy env src 0 pos (items_m temp0) 0 = Some (old1, t1)"
    and lq: "length q = length t1 \<and> unat (of_nat pos :: size_t) < length t1"
    and c2: "move_copy env old pos (unat s) q (pos + 1) = Some (old2, t2)"
    and pos: "pos \<le> unat s"
  shows "s + 1 \<le> T"
proof -
  from SimpleVector_sized_shape [OF t0]
  have sh: "length (items_m temp0) = unat T" by simp
  from move_copy_length [OF c1] sh have l1: "length t1 = unat T" by simp
  have room: "unat s + 1 \<le> unat T"
  proof (cases "pos = unat s")
    case True
    have "unat (of_nat (unat s) :: size_t) = unat s" by simp
    with lq True l1 show ?thesis by simp
  next
    case False
    from move_copy_bounds [OF c2 False] pos l1 lq show ?thesis by simp
  qed
  have "unat (s + 1) \<le> unat s + 1" by (rule unat_inc_le)
  with room show ?thesis by (simp add: word_le_nat_alt)
qed

lemma Insert_keeps_order:
  assumes sc: "size_m v \<le> capacity_m v" and r: "Insert env v pos x = Returns it v'"
  shows "size_m v' \<le> capacity_m v'"
proof (cases "size_m v < capacity_m v")
  case True
  then have "size_m v + 1 \<le> capacity_m v" by (rule inc_le)
  with r True show ?thesis
    by (auto simp: Insert_def Let_def split: if_splits option.splits)
next
  case False
  let ?T = "max (capacity_m v * 2) 1"
  from Insert_full_pieces [OF False r]
  obtain temp0 old1 t1 q old2 t2 where
    t0: "SimpleVector_sized env ?T = Returns temp0 ()" and
    c1: "move_copy env (items_m v) 0 pos (items_m temp0) 0 = Some (old1, t1)" and
    ac: "assign_across old1 t1 (unat (of_nat pos :: size_t)) x = Some q" and
    c2: "move_copy env old1 pos (unat (size_m v)) q (pos + 1) = Some (old2, t2)" and
    sv: "size_m v' = size_m v + 1" "capacity_m v' = capacity_m temp0" and
    pos: "pos \<le> unat (size_m v)"
    by blast
  from SimpleVector_sized_shape [OF t0] have sh: "capacity_m temp0 = ?T" by simp
  from Insert_full_room [OF t0 c1 assign_across_length [OF ac] c2 pos] sv sh
  show ?thesis by simp
qed

lemma Insert_move_keeps_order:
  assumes sc: "size_m v \<le> capacity_m v" and r: "Insert_move env v pos x = Returns itx v'"
  shows "size_m v' \<le> capacity_m v'"
proof (cases "size_m v < capacity_m v")
  case True
  then have "size_m v + 1 \<le> capacity_m v" by (rule inc_le)
  with r True show ?thesis
    by (auto simp: Insert_move_def Let_def split: if_splits option.splits)
next
  case False
  let ?T = "max (capacity_m v * 2) 1"
  from Insert_move_full_pieces [OF False r]
  obtain temp0 old1 t1 old1' q old2 t2 where
    t0: "SimpleVector_sized env ?T = Returns temp0 ()" and
    c1: "move_copy env (items_m v) 0 pos (items_m temp0) 0 = Some (old1, t1)" and
    ac: "move_across env old1 t1 (unat (of_nat pos :: size_t)) x = Some (old1', q)" and
    c2: "move_copy env old1' pos (unat (size_m v)) q (pos + 1) = Some (old2, t2)" and
    sv: "size_m v' = size_m v + 1" "capacity_m v' = capacity_m temp0" and
    pos: "pos \<le> unat (size_m v)"
    by blast
  from SimpleVector_sized_shape [OF t0] have sh: "capacity_m temp0 = ?T" by simp
  from Insert_full_room [OF t0 c1 move_across_length [OF ac] c2 pos] sv sh
  show ?thesis by simp
qed

lemma SimpleVector_copy_keeps_order:
  "size_m other \<le> capacity_m other \<Longrightarrow> SimpleVector_copy env other = Returns v other' \<Longrightarrow>
     size_m v \<le> capacity_m v \<and> other' = other"
  by (auto simp: SimpleVector_copy_def Let_def split: option.splits)

lemma access_keeps_vector:
  "subscript v i = Returns r v' \<Longrightarrow> v' = v"
  "subscript_const v i = Returns r v' \<Longrightarrow> v' = v"
  "At v i = Returns r v' \<Longrightarrow> v' = v"
  "At_const v i = Returns r v' \<Longrightarrow> v' = v"
  by (auto simp: subscript_def subscript_const_def At_def At_const_def
        split: if_splits option.splits)

text \<open>
  Claim C9. When one operation of \<open>SimpleVector\<close> (a constructor, an assignment or a
  member function) is applied to vectors whose size does not exceed their capacity and
  it returns, then every vector it leaves, the new one of a constructor included, has
  a size that does not exceed its capacity.
\<close>

theorem operations_keep_size_within_capacity:
  assumes "returns_from env vs vs'" and "\<forall>v \<in> set vs. GetSize v \<le> GetCapacity v"
  shows "\<forall>v \<in> set vs'. GetSize v \<le> GetCapacity v"
  using assms
proof (induction rule: returns_from.induct)
  case r_default
  then show ?case by (simp add: SimpleVector_default_def GetSize_def GetCapacity_def)
next
  case (r_sized n v)
  then show ?case by (auto simp: GetSize_def GetCapacity_def dest: SimpleVector_sized_shape)
next
  case (r_fill n x v)
  then show ?case
    by (auto simp: GetSize_def GetCapacity_def SimpleVector_fill_def Let_def split: option.splits)
next
  case (r_fill_move n x v x')
  then show ?case by (auto simp: GetSize_def GetCapacity_def dest: SimpleVector_fill_move_shape)
next
  case (r_reserved obj v)
  then obtain u where "Reserve env SimpleVector_default (capacity_to_reserve_m obj) = Returns u v"
    by (auto simp: SimpleVector_reserved_def split: outcome.splits)
  moreover have "size_m (SimpleVector_default :: 'a SimpleVector) \<le> capacity_m (SimpleVector_default :: 'a SimpleVector)"
    by (simp add: SimpleVector_default_def)
  ultimately show ?case
    using Reserve_keeps_order by (auto simp: GetSize_def GetCapacity_def)
next
  case (r_init init v)
  then show ?case
    by (auto simp: GetSize_def GetCapacity_def SimpleVector_init_def Let_def split: option.splits)
next
  case (r_copy other v other')
  then show ?case
    by (auto simp: GetSize_def GetCapacity_def dest: SimpleVector_copy_keeps_order)
next
  case (r_move other v other')
  then show ?case
    by (auto simp: GetSize_def GetCapacity_def SimpleVector_move_def SimpleVector_default_def
          ArrayPtr_move_assign_def Let_def)
next
  case (r_copy_assign v rhs v' rhs')
  then show ?case
    by (auto simp: GetSize_def GetCapacity_def copy_assign_def swap_def ArrayPtr_swap_def Let_def
          split: outcome.splits dest: SimpleVector_copy_keeps_order)
next
  case (r_copy_assign_self v v' rhs')
  then show ?case by (simp add: copy_assign_def)
next
  case (r_move_assign v rhs v' rhs')
  then show ?case
    by (auto simp: GetSize_def GetCapacity_def move_assign_def ArrayPtr_move_assign_def Let_def)
next
  case (r_move_assign_self v v' rhs')
  then show ?case by (simp add: move_assign_def)
next
  case (r_Reserve v n v')
  then show ?case by (auto simp: GetSize_def GetCapacity_def dest: Reserve_keeps_order)
next
  case (r_PushBack v x v')
  then show ?case by (auto simp: GetSize_def GetCapacity_def dest: PushBack_keeps_order)
next
  case (r_PushBack_move v x x' v')
  then show ?case by (auto simp: GetSize_def GetCapacity_def dest: PushBack_move_keeps_order)
next
  case (r_Insert v pos x it v')
  then show ?case by (auto simp: GetSize_def GetCapacity_def dest: Insert_keeps_order)
next
  case (r_Insert_move v pos x itx v')
  then show ?case by (auto simp: GetSize_def GetCapacity_def dest: Insert_move_keeps_order)
next
  case (r_PopBack v)
  then show ?case by (auto simp: GetSize_def GetCapacity_def dest: PopBack_keeps_order)
next
  case (r_Erase v pos it v')
  then show ?case by (auto simp: GetSize_def GetCapacity_def dest: Erase_keeps_order)
next
  case (r_swap v other v' other')
  then show ?case
    by (auto simp: GetSize_def GetCapacity_def swap_def ArrayPtr_swap_def)
next
  case (r_subscript v i r v')
  then show ?case by (auto dest: access_keeps_vector)
next
  case (r_subscript_const v i r v')
  then show ?case by (auto dest: access_keeps_vector)
next
  case (r_At v i r v')
  then show ?case by (auto dest: access_keeps_vector)
next
  case (r_At_const v i r v')
  then show ?case by (auto dest: access_keeps_vector)
next
  case (r_Clear v)
  then show ?case by (simp add: Clear_def GetSize_def GetCapacity_def)
next
  case (r_observe v)
  then show ?case by simp
next
  case (r_Resize v n v')
  then show ?case by (auto simp: GetSize_def GetCapacity_def dest: Resize_keeps_order)
qed

theorem operations_keep_size_within_capacity_witness:
  "returns_from (int_env True) [\<lparr>items_m = [1, 2, 3], size_m = 3, capacity_m = 3\<rparr>]
       [\<lparr>items_m = [1, 9, 2, 3, 0, 0], size_m = 4, capacity_m = 6\<rparr>]
   \<and> GetSize \<lparr>items_m = [1, 2, 3::int], size_m = 3, capacity_m = 3\<rparr>
       \<le> GetCapacity \<lparr>items_m = [1, 2, 3::int], size_m = 3, capacity_m = 3\<rparr>
   \<and> GetSize \<lparr>items_m = [1, 9, 2, 3, 0, 0::int], size_m = 4, capacity_m = 6\<rparr>
       \<le> GetCapacity \<lparr>items_m = [1, 9, 2, 3, 0, 0::int], size_m = 4, capacity_m = 6\<rparr>"
proof -
  let ?v = "\<lparr>items_m = [1, 2, 3::int], size_m = 3, capacity_m = 3\<rparr>"
  let ?v' = "\<lparr>items_m = [1, 9, 2, 3, 0, 0::int], size_m = 4, capacity_m = 6\<rparr>"
  have step: "returns_from (int_env True) [?v] [?v']"
    using Insert_int_full by (rule r_Insert)
  have before: "\<forall>v \<in> set [?v]. GetSize v \<le> GetCapacity v"
    by (simp add: GetSize_def GetCapacity_def)
  from operations_keep_size_within_capacity [OF step before] step before
  show ?thesis by simp
qed

subsection \<open>Allocation failure during growth\<close>

text \<open>
  What an operation that throws leaves behind: \<open>Reserve\<close> and \<open>Insert\<close> leave the
  vector as it was; \<open>Resize\<close> and \<open>PushBack\<close> leave it with the capacity they asked
  for.
\<close>

lemma Reserve_Throws:
  "Reserve env v n = Throws e s \<Longrightarrow> e = AllocationFailure \<and> s = v"
  by (auto simp: Reserve_def ArrayPtr_swap_def split: if_splits option.splits)

lemma Insert_Throws:
  "Insert env v pos x = Throws e s \<Longrightarrow> e = AllocationFailure \<and> s = v"
  by (auto simp: Insert_def Let_def SimpleVector_sized_def SimpleVector_fill_move_def
        subscript_def ArrayPtr_ref_def swap_def ArrayPtr_swap_def
        split: if_splits option.splits outcome.splits prod.splits)

lemma Insert_move_Throws:
  "Insert_move env v pos x = Throws e s \<Longrightarrow> e = AllocationFailure \<and> s = v"
  by (auto simp: Insert_move_def Let_def SimpleVector_sized_def SimpleVector_fill_move_def
        subscript_def ArrayPtr_ref_def swap_def ArrayPtr_swap_def
        split: if_splits option.splits outcome.splits prod.splits)

lemma Resize_Throws:
  "Resize env v n = Throws e s \<Longrightarrow>
     e = AllocationFailure \<and> capacity_m v < n \<and>
     s = v\<lparr>capacity_m := max n (capacity_m v * 2)\<rparr>"
  by (auto simp: Resize_def Let_def ArrayPtr_swap_def split: if_splits option.splits)

lemma PushBack_Throws:
  "PushBack env v x = Throws e s \<Longrightarrow>
     e = AllocationFailure \<and> size_m v = capacity_m v \<and>
     s = v\<lparr>capacity_m := max (capacity_m v + 1) (capacity_m v * 2)\<rparr>"
proof -
  assume r: "PushBack env v x = Throws e s"
  then have f: "size_m v = capacity_m v"
    by (auto simp: PushBack_def Let_def split: if_splits option.splits)
  with r have "Resize env v (capacity_m v + 1) = Throws e s"
    by (cases "Resize env v (capacity_m v + 1)")
       (auto simp: PushBack_def Let_def split: option.splits)
  from Resize_Throws [OF this] f show ?thesis by simp
qed

text \<open>
  Claim C1 says that a growth operation whose allocation fails leaves size, capacity
  and elements as they were. \<open>Resize\<close> assigns \<open>capacity_\<close> before it allocates, so
  after the failure the vector reports the capacity it asked for, and \<open>PushBack\<close>,
  which grows through \<open>Resize\<close>, inherits this. With \<open>[1, 2, 3]\<close> of capacity 3 and a
  heap that provides nothing, \<open>Resize(7)\<close> throws and leaves capacity 7, and
  \<open>PushBack(4)\<close> throws and leaves capacity 6.
\<close>

theorem Resize_failure_changes_capacity:
  "Resize (int_env False) \<lparr>items_m = [1, 2, 3], size_m = 3, capacity_m = 3\<rparr> 7
     = Throws AllocationFailure \<lparr>items_m = [1, 2, 3], size_m = 3, capacity_m = 7\<rparr>
   \<and> PushBack (int_env False) \<lparr>items_m = [1, 2, 3], size_m = 3, capacity_m = 3\<rparr> (Outside 4)
     = Throws AllocationFailure \<lparr>items_m = [1, 2, 3], size_m = 3, capacity_m = 6\<rparr>"
  by (simp add: PushBack_def Resize_def int_env_def ArrayPtr_new_def Let_def)

subsection \<open>Move construction\<close>

text \<open>
  The move constructor on any vector, and the move assignment, which takes over the
  capacity of its right-hand side.
\<close>

lemma SimpleVector_move_general:
  "SimpleVector_move other =
     Returns \<lparr>items_m = items_m other, size_m = size_m other, capacity_m = size_m other\<rparr>
       \<lparr>items_m = [], size_m = 0, capacity_m = 0\<rparr>"
  by (simp add: SimpleVector_move_def SimpleVector_default_def ArrayPtr_move_assign_def Let_def)

lemma move_assign_takes_capacity:
  "move_assign False v rhs =
     Returns () (\<lparr>items_m = items_m rhs, size_m = size_m rhs, capacity_m = capacity_m rhs\<rparr>,
                 \<lparr>items_m = [], size_m = 0, capacity_m = 0\<rparr>)"
  by (simp add: move_assign_def ArrayPtr_move_assign_def Let_def)

text \<open>
  Claim C2 says that the move constructor gives the new vector the size and the
  capacity of its source. The constructor assigns \<open>capacity_ = size_\<close>: moving from
  \<open>[1, 2, 3]\<close> of capacity 5 gives a vector of capacity 3 that owns the block of 5
  slots; the source is left empty with size 0 and capacity 0.
\<close>

theorem move_constructor_capacity_is_size:
  "SimpleVector_move \<lparr>items_m = [1, 2, 3, 0, 0::int], size_m = 3, capacity_m = 5\<rparr>
     = Returns \<lparr>items_m = [1, 2, 3, 0, 0], size_m = 3, capacity_m = 3\<rparr>
         \<lparr>items_m = [], size_m = 0, capacity_m = 0\<rparr>"
  by (simp add: SimpleVector_move_def SimpleVector_default_def ArrayPtr_move_assign_def Let_def)

subsection \<open>The sized constructor\<close>

text \<open>
  For an element type whose move leaves \<open>Type()\<close> as it is, every slot holds
  \<open>Type()\<close>.
\<close>

lemma SimpleVector_sized_default:
  assumes "moved_from env (Type_default env) = Type_default env"
    and "ArrayPtr_new env n \<noteq> None"
  shows "SimpleVector_sized env n =
     Returns \<lparr>items_m = replicate (unat n) (Type_default env), size_m = n, capacity_m = n\<rparr> ()"
proof -
  from SimpleVector_sized_Returns [OF assms(2)]
  obtain p where p: "SimpleVector_sized env n = Returns \<lparr>items_m = p, size_m = n, capacity_m = n\<rparr> ()"
    "length p = unat n" "\<forall>j < unat n. p ! j = (moved_from env ^^ j) (Type_default env)"
    by blast
  have "(moved_from env ^^ j) (Type_default env) = Type_default env" for j
    by (induction j) (simp_all add: assms(1))
  with p(2,3) have "p = replicate (unat n) (Type_default env)"
    by (intro nth_equalityI) simp_all
  with p(1) show ?thesis by simp
qed

text \<open>
  Claim C5 says that \<open>SimpleVector(n)\<close> holds \<open>n\<close> elements equal to \<open>Type()\<close>. The
  constructor moves from one temporary \<open>Type()\<close> into every slot. For the class \<open>X\<close>
  of main.cpp, whose default value is \<open>X(5)\<close>, the first slot receives \<open>X(5)\<close> and the
  second one the moved-from \<open>X(0)\<close>.
\<close>

theorem sized_constructor_moves_from_one_value:
  "SimpleVector_sized X_env 2 = Returns \<lparr>items_m = [5, 0], size_m = 2, capacity_m = 2\<rparr> ()"
  by (simp add: SimpleVector_sized_def SimpleVector_fill_move_def X_env_def ArrayPtr_new_def
        max_elements_def ArrayPtr_write_def upt_rec fill_moved.simps)

end
